theory Spec2Isabelle
  imports Main "HOL-Library.Word" "HOL-Library.Sublist"
begin

section \<open>Strings of the host language\<close>

text \<open>
  A TypeScript string is a sequence of UTF-16 code units; \<open>length\<close>, \<open>indexOf\<close>, the
  offsets of a regular-expression match and the offsets of the editor all count code
  units. A string literal of the source is written \<open>js ''...''\<close>; the two characters of
  the source outside ASCII that matter for lengths are given by their code unit.
\<close>

type_synonym jschar = "16 word"
type_synonym jsstring = "jschar list"

definition js :: "string \<Rightarrow> jsstring" where
  "js s = map of_char s"

definition NL :: jschar where
  "NL = 0x0A"

definition hourglass :: jschar where
  \<comment> \<open>U+23F3, the hourglass of the placeholder text\<close>
  "hourglass = 0x23F3"

definition isLineTerminator :: "jschar \<Rightarrow> bool" where
  \<comment> \<open>the code units that \<open>.\<close> of a regular expression without the \<open>s\<close> flag refuses\<close>
  "isLineTerminator c = (c = 0x0A \<or> c = 0x0D \<or> c = 0x2028 \<or> c = 0x2029)"

fun indexOf :: "jsstring \<Rightarrow> jsstring \<Rightarrow> nat option" where
  \<comment> \<open>\<open>s.indexOf(sub)\<close>: the first offset at which \<open>sub\<close> occurs; \<open>None\<close> is \<open>-1\<close>\<close>
  "indexOf sub [] = (if sub = [] then Some 0 else None)"
| "indexOf sub (c # cs) =
     (if prefix sub (c # cs) then Some 0 else map_option Suc (indexOf sub cs))"

definition replaceNewlines :: "jsstring \<Rightarrow> jsstring" where
  \<comment> \<open>\<open>transcriptionText.replace(/\n/g, '\n> ')\<close>\<close>
  "replaceNewlines t = concat (map (\<lambda>c. if c = NL then NL # js ''> '' else [c]) t)"

fun digitsOf :: "nat \<Rightarrow> nat \<Rightarrow> jsstring" where
  \<comment> \<open>the decimal digits of \<open>n\<close>, most significant first; the first argument bounds the
      number of digits\<close>
  "digitsOf 0 n = []"
| "digitsOf (Suc f) n =
     (if n < 10 then [of_nat (48 + n)] else digitsOf f (n div 10) @ [of_nat (48 + n mod 10)])"

definition showNat :: "nat \<Rightarrow> jsstring" where
  \<comment> \<open>a non-negative integer inside a template string\<close>
  "showNat n = digitsOf (Suc n) n"

section \<open>The audio-link scanner\<close>

text \<open>
  Both source files scan the note with
  \<^verbatim>\<open>/!\[\[(.*?\.(mp3|wav|m4a|flac|ogg|aac|webm))\]\]/g\<close> and \<open>content.matchAll\<close>.
  The expression has the flag \<open>g\<close> only: no \<open>i\<close> (letters are compared as they are), no
  \<open>s\<close> (\<open>.\<close> refuses line terminators) and no \<open>u\<close> (\<open>.\<close> consumes one code unit).
  The functions below follow the backtracking matcher on this expression.
\<close>

definition audioExtensions :: "jsstring list" where
  \<comment> \<open>the alternatives of the inner group, in the order of the source\<close>
  "audioExtensions =
     [js ''mp3'', js ''wav'', js ''m4a'', js ''flac'', js ''ogg'', js ''aac'', js ''webm'']"

fun matchAlternatives :: "jsstring list \<Rightarrow> jsstring \<Rightarrow> jsstring option" where
  \<comment> \<open>\<open>(mp3|wav|...)\]\]\<close> at the head of the text: the first alternative, in order,
      after which \<open>]]\<close> follows\<close>
  "matchAlternatives [] s = None"
| "matchAlternatives (e # es) s =
     (if prefix (e @ js '']]'') s then Some e else matchAlternatives es s)"

definition matchSuffix :: "jsstring \<Rightarrow> jsstring option" where
  \<comment> \<open>\<open>\.(mp3|wav|...)\]\]\<close> at the head of the text\<close>
  "matchSuffix s =
     (case s of [] \<Rightarrow> None
      | c # cs \<Rightarrow> if c = of_char CHR ''.'' then matchAlternatives audioExtensions cs else None)"

fun lazyDot :: "jsstring \<Rightarrow> (jsstring \<times> jsstring) option" where
  \<comment> \<open>\<open>.*?\<close> followed by the rest of the expression: the rest is tried first, and only
      when it fails one more code unit is consumed, unless it is a line terminator.
      The result is what \<open>.*?\<close> consumed and the extension matched.\<close>
  "lazyDot [] = None"
| "lazyDot (c # cs) =
     (case matchSuffix (c # cs) of
        Some e \<Rightarrow> Some ([], e)
      | None \<Rightarrow>
          if isLineTerminator c then None
          else (case lazyDot cs of None \<Rightarrow> None | Some (n, e) \<Rightarrow> Some (c # n, e)))"

definition execAt :: "jsstring \<Rightarrow> (jsstring \<times> jsstring) option" where
  \<comment> \<open>the whole expression anchored at the head of the text: capture groups 1 and 2\<close>
  "execAt s =
     (if prefix (js ''![['') s
      then (case lazyDot (drop 3 s) of
              None \<Rightarrow> None
            | Some (n, e) \<Rightarrow> Some (n @ of_char CHR ''.'' # e, e))
      else None)"

record regexp_match =
  whole :: jsstring    \<comment> \<open>\<open>match[0]\<close>\<close>
  group1 :: jsstring   \<comment> \<open>\<open>match[1]\<close>\<close>
  group2 :: jsstring   \<comment> \<open>\<open>match[2]\<close>\<close>
  index :: nat         \<comment> \<open>\<open>match.index\<close>\<close>

function matchAllFrom :: "nat \<Rightarrow> jsstring \<Rightarrow> regexp_match list" where
  \<comment> \<open>the iterator of \<open>matchAll\<close> with \<open>lastIndex = i\<close>, on the text from offset \<open>i\<close> on:
      the leftmost match is reported and the search resumes at its end (one code unit
      further when the match is empty)\<close>
  "matchAllFrom i s =
     (case execAt s of
        Some (g1, g2) \<Rightarrow>
          (let w = js ''![['' @ g1 @ js '']]'' in
           \<lparr>whole = w, group1 = g1, group2 = g2, index = i\<rparr> #
           (if length w = 0 then (case s of [] \<Rightarrow> [] | c # cs \<Rightarrow> matchAllFrom (Suc i) cs)
            else matchAllFrom (i + length w) (drop (length w) s)))
      | None \<Rightarrow> (case s of [] \<Rightarrow> [] | c # cs \<Rightarrow> matchAllFrom (Suc i) cs))"
  by pat_completeness auto
termination
proof (relation "measure (\<lambda>(i, s). length s)")
  fix i :: nat and s :: jsstring and x g1 g2 w
  assume "execAt s = Some x" and "length w \<noteq> 0"
  moreover from \<open>execAt s = Some x\<close> have "s \<noteq> []"
    by (auto simp: execAt_def js_def)
  ultimately show "((i + length w, drop (length w) s), (i, s)) \<in> measure (\<lambda>(i, s). length s)"
    by simp
qed auto

definition matchAll :: "jsstring \<Rightarrow> regexp_match list" where
  \<comment> \<open>\<open>[...content.matchAll(audioFileRegex)]\<close>\<close>
  "matchAll content = matchAllFrom 0 content"

section \<open>The editor of the host application\<close>

text \<open>
  The editor belongs to the host application, not to this repository. The plugin uses
  four of its operations: \<open>getValue\<close>, \<open>offsetToPos\<close>, \<open>posToOffset\<close> and
  \<open>replaceRange\<close>. A position is a line number and a column, both counted from zero;
  lines are separated by the line feed. An offset past the end of the text is clipped
  to the end, as is a position past the end.
\<close>

record position =
  line :: nat
  ch :: nat

definition offsetToPos :: "jsstring \<Rightarrow> nat \<Rightarrow> position" where
  "offsetToPos d off =
     (let pre = take off d in
      \<lparr>line = length (filter (\<lambda>c. c = NL) pre),
       ch = length (takeWhile (\<lambda>c. c \<noteq> NL) (rev pre))\<rparr>)"

fun lineFrom :: "nat \<Rightarrow> jsstring \<Rightarrow> nat" where
  \<comment> \<open>the offset at which line \<open>n\<close> starts\<close>
  "lineFrom 0 d = 0"
| "lineFrom (Suc n) [] = 0"
| "lineFrom (Suc n) (c # cs) = Suc (if c = NL then lineFrom n cs else lineFrom (Suc n) cs)"

definition posToOffset :: "jsstring \<Rightarrow> position \<Rightarrow> nat" where
  "posToOffset d p = min (length d) (lineFrom (line p) d + ch p)"

definition spliceRange :: "jsstring \<Rightarrow> jsstring \<Rightarrow> position \<Rightarrow> position \<Rightarrow> jsstring" where
  \<comment> \<open>the text after \<open>editor.replaceRange(t, p, q)\<close>\<close>
  "spliceRange d t p q = take (posToOffset d p) d @ t @ drop (posToOffset d q) d"

section \<open>What the command can observe and change\<close>

text \<open>
  The state a run of the command changes: the text of the active editor, the notices
  shown to the user, and two traces used to state properties about the order and the
  number of effects, the calls of \<open>editor.replaceRange\<close> and the calls of a provider
  client's \<open>transcribeAudio\<close>. Output to the console is not modelled.
\<close>

text \<open>
  The setting \<open>provider\<close> is declared as \<open>'gemini' | 'openrouter'\<close>, but the
  declaration is not checked when the settings are loaded: the setting holds whatever
  string the stored data holds. The source compares it with \<open>===\<close> and prints it in
  template strings.
\<close>

type_synonym provider_id = jsstring

definition Gemini :: provider_id where
  "Gemini = js ''gemini''"

definition OpenRouter :: provider_id where
  "OpenRouter = js ''openrouter''"

record edit =
  inserted :: jsstring
  startAt :: position
  endAt :: position

record world =
  doc :: jsstring
  notices :: "jsstring list"
  edits :: "edit list"
  calls :: "(provider_id \<times> jsstring) list"
    \<comment> \<open>the calls of \<open>transcribeAudio\<close> made: the client called (\<open>gemini\<close> or
        \<open>openrouter\<close>) and the path passed\<close>

definition Notice :: "jsstring \<Rightarrow> world \<Rightarrow> world" where
  \<comment> \<open>\<open>new Notice(message)\<close>\<close>
  "Notice message w = w\<lparr>notices := notices w @ [message]\<rparr>"

definition replaceRange :: "jsstring \<Rightarrow> position \<Rightarrow> position \<Rightarrow> world \<Rightarrow> world" where
  \<comment> \<open>\<open>editor.replaceRange(t, p, q)\<close>\<close>
  "replaceRange t p q w =
     w\<lparr>doc := spliceRange (doc w) t p q,
       edits := edits w @ [\<lparr>inserted = t, startAt = p, endAt = q\<rparr>]\<rparr>"

text \<open>
  The collaborators outside the repository, as the functions the source calls:
  the active Markdown view (\<open>None\<close> when there is none; otherwise the path of its file,
  \<open>None\<close> when the view has no file), the link resolver of the metadata cache (the
  path of the \<open>TFile\<close> found, or \<open>None\<close>), the vault adapter, the file system, the
  Gemini SDK and the HTTP client. A call that throws returns \<open>Inl\<close> of the error's
  message.
\<close>

type_synonym bytes = "8 word list"

datatype http_result =
    HttpResponse nat jsstring "jsstring option"
      \<comment> \<open>\<open>response.status\<close>, \<open>response.json.text\<close>, \<open>response.json.error?.message\<close>\<close>
  | HttpThrown jsstring "jsstring option"
      \<comment> \<open>\<open>error.message\<close>, and for an error with a non-empty \<open>body\<close> the message the
          handler reads from it (the \<open>message\<close> of its JSON \<open>error\<close>, else the JSON
          printed, else the body as it is)\<close>

record env =
  activeView :: "jsstring option option"
  getFirstLinkpathDest :: "jsstring \<Rightarrow> jsstring \<Rightarrow> jsstring option"
  getFullPath :: "jsstring \<Rightarrow> jsstring"
  readFileSync :: "jsstring \<Rightarrow> jsstring + bytes"
  modelNameError :: jsstring
    \<comment> \<open>the message of the error that \<open>genAI.getGenerativeModel({ model: modelName })\<close>
        of the SDK throws; it throws when the model name is empty\<close>
  generateContent :: "jsstring \<Rightarrow> jsstring \<Rightarrow> jsstring \<Rightarrow> bytes \<Rightarrow> jsstring \<Rightarrow> jsstring + jsstring"
    \<comment> \<open>API key, model, prompt, audio data, mime type: \<open>result.response.text()\<close>\<close>
  requestUrl :: "jsstring \<Rightarrow> jsstring \<Rightarrow> jsstring \<Rightarrow> bytes \<Rightarrow> http_result"
    \<comment> \<open>API key, file name, model, audio data: the POST to the transcription endpoint\<close>

section \<open>The provider clients\<close>

definition lastSegment :: "(jschar \<Rightarrow> bool) \<Rightarrow> jsstring \<Rightarrow> jsstring" where
  \<comment> \<open>\<open>s.split(sep).pop()\<close>: what follows the last separator, the whole of \<open>s\<close> when it
      has none\<close>
  "lastSegment sep s = rev (takeWhile (\<lambda>c. \<not> sep c) (rev s))"

definition toLowerCase :: "jsstring \<Rightarrow> jsstring" where
  \<comment> \<open>on the letters A to Z; no other code unit becomes a letter of an extension of
      \<open>getMimeType\<close> when lowered\<close>
  "toLowerCase s = map (\<lambda>c. if 0x41 \<le> c \<and> c \<le> 0x5A then c + 0x20 else c) s"

definition getMimeType :: "jsstring \<Rightarrow> jsstring option" where
  "getMimeType filePath =
     (let extension = toLowerCase (lastSegment (\<lambda>c. c = of_char CHR ''.'') filePath) in
      if extension = js ''mp3'' then Some (js ''audio/mp3'')
      else if extension = js ''wav'' then Some (js ''audio/wav'')
      else if extension = js ''m4a'' then Some (js ''audio/m4a'')
      else if extension = js ''flac'' then Some (js ''audio/flac'')
      else if extension = js ''ogg'' then Some (js ''audio/ogg'')
      else if extension = js ''aac'' then Some (js ''audio/aac'')
      else if extension = js ''webm'' then Some (js ''audio/webm'')
      else None)"

definition GeminiService_transcribeAudio ::
  "env \<Rightarrow> jsstring \<Rightarrow> jsstring \<Rightarrow> jsstring \<Rightarrow> jsstring \<Rightarrow> jsstring + jsstring" where
  \<comment> \<open>\<open>GeminiService.transcribeAudio(audioPath, prompt, modelName)\<close> of a service built
      with \<open>apiKey\<close>; the same in both source files. The steps that can throw, in their
      order: \<open>getGenAI\<close>, \<open>getGenerativeModel\<close>, \<open>getMimeType\<close>, \<open>readFileSync\<close>,
      \<open>generateContent\<close>.\<close>
  "GeminiService_transcribeAudio e apiKey audioPath prompt modelName =
     (if apiKey = [] then Inl (js ''Gemini API key is not configured.'')
      else if modelName = [] then Inl (modelNameError e)
      else case getMimeType audioPath of
        None \<Rightarrow> Inl (js ''Unsupported audio format for file: '' @ audioPath)
      | Some audioMimeType \<Rightarrow>
          (case readFileSync e audioPath of
             Inl msg \<Rightarrow> Inl msg
           | Inr audio \<Rightarrow> generateContent e apiKey modelName prompt audio audioMimeType))"

definition OpenRouterService_transcribeAudio ::
  "env \<Rightarrow> jsstring \<Rightarrow> jsstring \<Rightarrow> jsstring \<Rightarrow> jsstring + jsstring" where
  \<comment> \<open>\<open>OpenRouterService.transcribeAudio(audioPath, modelName)\<close> of a service built with
      \<open>apiKey\<close>. The multipart body (its boundary is read from the clock) is left to
      \<open>requestUrl\<close>.\<close>
  "OpenRouterService_transcribeAudio e apiKey audioPath modelName =
     (if apiKey = [] then Inl (js ''OpenRouter API key is not configured.'')
      else case readFileSync e audioPath of
        Inl msg \<Rightarrow> Inl msg
      | Inr audioBuffer \<Rightarrow>
          (let seg = lastSegment (\<lambda>c. c = of_char CHR ''/'' \<or> c = 0x5C) audioPath;
               fileName = (if seg = [] then js ''audio.dat'' else seg)
           in case requestUrl e apiKey fileName modelName audioBuffer of
                HttpResponse status txt err \<Rightarrow>
                  if status \<noteq> 200
                  then Inl (js ''OpenRouter API request failed with status '' @ showNat status
                            @ js '': ''
                            @ (case err of None \<Rightarrow> js ''Unknown error''
                               | Some m \<Rightarrow> if m = [] then js ''Unknown error'' else m))
                  else Inr txt
              | HttpThrown msg body \<Rightarrow>
                  Inl (case body of
                         Some b \<Rightarrow> b
                       | None \<Rightarrow> if msg = [] then js ''Unknown transcription error'' else msg)))"

section \<open>The command with two providers\<close>

text \<open>
  This section follows the source file whose settings name a provider (the file with
  \<open>OpenRouterService\<close> and the migration in \<open>onload\<close>). The next section follows
  \<open>src/main.ts\<close>, which knows Gemini only.
\<close>

record TellaSettings =
  provider :: provider_id
  geminiApiKey :: jsstring
  geminiModelName :: jsstring
  openrouterApiKey :: jsstring
  openrouterModelName :: jsstring
  transcriptionPrompt :: jsstring

record Tella =
  settings :: TellaSettings
  geminiService :: jsstring      \<comment> \<open>the \<open>apiKey\<close> the Gemini client was built with\<close>
  openrouterService :: jsstring  \<comment> \<open>the \<open>apiKey\<close> the OpenRouter client was built with\<close>

record job =
  filePath :: jsstring
  startPos :: position
  placeholderBlock :: jsstring
  originalLink :: jsstring
  fileName :: jsstring

definition pendingBlock :: "provider_id \<Rightarrow> jsstring \<Rightarrow> jsstring \<Rightarrow> jsstring" where
  \<comment> \<open>the template of \<open>placeholderBlock\<close>\<close>
  "pendingBlock p fileName' originalLink' =
     js ''> [!tip] Audio Note'' @ NL # js ''> '' @ hourglass # js '' Transcribing '' @ fileName'
     @ js '' with '' @ p @ js ''...'' @ NL # js ''> '' @ originalLink' @ [NL]"

definition failedBlock :: "jsstring \<Rightarrow> jsstring \<Rightarrow> jsstring" where
  \<comment> \<open>the template of every \<open>errorBlock\<close>: the message, then the link\<close>
  "failedBlock message originalLink' =
     js ''> [!warning] Transcription Failed'' @ NL # js ''> '' @ message
     @ NL # js ''> '' @ originalLink' @ [NL]"

definition finalBlock :: "jsstring \<Rightarrow> jsstring \<Rightarrow> jsstring" where
  \<comment> \<open>the template of \<open>finalBlock\<close>, from the formatted transcription and the link\<close>
  "finalBlock formattedTranscription originalLink' =
     js ''> [!tip] Audio Note'' @ NL # js ''> '' @ formattedTranscription
     @ NL # js ''> '' @ originalLink' @ [NL]"

definition processMatch ::
  "env \<Rightarrow> provider_id \<Rightarrow> jsstring option \<Rightarrow> world \<times> job list \<Rightarrow> regexp_match
     \<Rightarrow> world \<times> job list" where
  \<comment> \<open>one turn of the loop of step 1; \<open>activeFile\<close> is \<open>activeView.file\<close>\<close>
  "processMatch e p activeFile st m =
     (let w = fst st; jobs = snd st;
          originalLink' = whole m;
          fileName' = group1 m;
          matchIndex = index m;
          startPos' = offsetToPos (doc w) matchIndex;
          endPos = offsetToPos (doc w) (matchIndex + length originalLink');
          placeholderBlock' = pendingBlock p fileName' originalLink';
          w1 = replaceRange placeholderBlock' startPos' endPos w
      in case activeFile of
           None \<Rightarrow>
             (let errorBlock = failedBlock (js ''Active note is not a file.'') originalLink';
                  newEndPos = offsetToPos (doc w1)
                                (posToOffset (doc w1) startPos' + length placeholderBlock')
              in (replaceRange errorBlock startPos' newEndPos w1, jobs))
         | Some path \<Rightarrow>
             (case getFirstLinkpathDest e fileName' path of
                Some f \<Rightarrow>
                  (w1, jobs @ [\<lparr>filePath = getFullPath e f, startPos = startPos',
                                placeholderBlock = placeholderBlock',
                                originalLink = originalLink', fileName = fileName'\<rparr>])
              | None \<Rightarrow>
                  (let errorBlock = failedBlock (js ''Could not find file: '' @ fileName')
                                      originalLink';
                       newEndPos = offsetToPos (doc w1)
                                     (posToOffset (doc w1) startPos' + length placeholderBlock')
                   in (Notice (js ''Could not find the file: '' @ fileName')
                         (replaceRange errorBlock startPos' newEndPos w1), jobs))))"

definition updateCallout :: "job \<Rightarrow> jsstring \<Rightarrow> world \<Rightarrow> world" where
  \<comment> \<open>the closure \<open>updateCallout\<close> of a job; the same in both source files\<close>
  "updateCallout j blockToInsert w =
     (let currentContent = doc w in
      case indexOf (placeholderBlock j) currentContent of
        Some placeholderIndex \<Rightarrow>
          replaceRange blockToInsert
            (offsetToPos (doc w) placeholderIndex)
            (offsetToPos (doc w) (placeholderIndex + length (placeholderBlock j))) w
      | None \<Rightarrow>
          Notice (js ''Could not update transcription for '' @ fileName j @ js ''.'') w)"

definition transcribe :: "env \<Rightarrow> Tella \<Rightarrow> jsstring \<Rightarrow> jsstring + jsstring" where
  \<comment> \<open>the provider call of a job, from its \<open>filePath\<close>: the text, or the message of the
      error thrown\<close>
  "transcribe e plugin path =
     (if provider (settings plugin) = Gemini
      then GeminiService_transcribeAudio e (geminiService plugin) path
             (transcriptionPrompt (settings plugin)) (geminiModelName (settings plugin))
      else OpenRouterService_transcribeAudio e (openrouterService plugin) path
             (openrouterModelName (settings plugin)))"

definition clientFor :: "provider_id \<Rightarrow> provider_id" where
  \<comment> \<open>the client whose \<open>transcribeAudio\<close> a job calls, by its provider name:
      \<open>geminiService\<close> for \<open>provider === 'gemini'\<close>, \<open>openrouterService\<close> in the
      \<open>else\<close> branch\<close>
  "clientFor p = (if p = Gemini then Gemini else OpenRouter)"

definition finishJob :: "env \<Rightarrow> Tella \<Rightarrow> job \<Rightarrow> world \<Rightarrow> world" where
  \<comment> \<open>what a job does once its provider call has settled: the \<open>try\<close> after the
      \<open>await\<close>, or the \<open>catch\<close>\<close>
  "finishJob e plugin j w =
     (case transcribe e plugin (filePath j) of
        Inr transcriptionText \<Rightarrow>
          updateCallout j (finalBlock (replaceNewlines transcriptionText) (originalLink j)) w
      | Inl message \<Rightarrow> updateCallout j (failedBlock message (originalLink j)) w)"

definition settleOrder :: "nat list \<Rightarrow> 'a list \<Rightarrow> 'a list" where
  \<comment> \<open>The jobs in the order in which their provider calls settle. The schedule lists
      indices into \<open>jobs\<close>; a job settles once, at the first place the schedule names it,
      and a job the schedule does not name never settles.\<close>
  "settleOrder schedule jobs = map (\<lambda>i. jobs ! i) (filter (\<lambda>i. i < length jobs) (remdups schedule))"

definition allSettled :: "nat list \<Rightarrow> 'a list \<Rightarrow> bool" where
  "allSettled schedule jobs = list_all (\<lambda>i. i \<in> set schedule) [0..<length jobs]"

definition runJobs :: "env \<Rightarrow> Tella \<Rightarrow> nat list \<Rightarrow> job list \<Rightarrow> world \<Rightarrow> world" where
  \<comment> \<open>Step 2: \<open>jobs.map\<close> starts every provider call, in the order of \<open>jobs\<close>; the jobs
      then finish in the order of the schedule. \<open>Promise.all\<close> resolves, and the last
      notice is shown, only when every job has settled.\<close>
  "runJobs e plugin schedule jobs w =
     (let started = w\<lparr>calls := calls w @ map (\<lambda>j. (clientFor (provider (settings plugin)), filePath j)) jobs\<rparr>;
          finished = foldl (\<lambda>v j. finishJob e plugin j v) started (settleOrder schedule jobs)
      in if allSettled schedule jobs
         then Notice (js ''All transcriptions complete!'') finished
         else finished)"

definition noAudioNotice :: jsstring where
  \<comment> \<open>the five characters of the notice shown when the note has no audio link\<close>
  "noAudioNotice = [0x672A, 0x627E, 0x5230, 0x97F3, 0x9891]"

definition collectJobs :: "env \<Rightarrow> provider_id \<Rightarrow> jsstring option \<Rightarrow> regexp_match list \<Rightarrow> world
     \<Rightarrow> world \<times> job list" where
  \<comment> \<open>Step 1: \<open>for (const match of audioFiles.reverse())\<close>\<close>
  "collectJobs e p activeFile audioFiles w =
     foldl (processMatch e p activeFile) (w, []) (rev audioFiles)"

definition transcribeAudioInNote :: "env \<Rightarrow> Tella \<Rightarrow> nat list \<Rightarrow> world \<Rightarrow> world" where
  "transcribeAudioInNote e plugin schedule w =
     (let s = settings plugin in
      if provider s = Gemini \<and> geminiApiKey s = []
      then Notice (js ''Gemini API key is not set. Please configure it in the settings.'') w
      else if provider s = OpenRouter \<and> openrouterApiKey s = []
      then Notice (js ''OpenRouter API key is not set. Please configure it in the settings.'') w
      else case activeView e of
        None \<Rightarrow> Notice (js ''No active note to transcribe.'') w
      | Some activeFile \<Rightarrow>
          (let content = doc w;
               audioFiles = matchAll content
           in if length audioFiles = 0 then Notice noAudioNotice w
              else
                (let modelInUse = (if provider s = Gemini then geminiModelName s
                                   else openrouterModelName s);
                     w0 = Notice (js ''Found '' @ showNat (length audioFiles)
                                  @ js '' audio file(s). Starting transcription with ''
                                  @ provider s @ js '' ('' @ modelInUse
                                  @ js '')...'') w;
                     st = collectJobs e (provider s) activeFile audioFiles w0
                 in runJobs e plugin schedule (snd st) (fst st))))"

subsection \<open>Loading the plugin and changing its settings\<close>

text \<open>
  The host keeps what \<open>saveData\<close> stored. \<open>loadData\<close> returns the stored object, in
  which any field may be missing (\<open>null\<close> is the object without fields);
  \<open>Object.assign({}, DEFAULT_SETTINGS, data)\<close> takes each field from the data when it
  is there and from the defaults otherwise. The calls the plugin makes on the host
  while it loads are traced in their order.
\<close>

record stored_settings =
  stored_provider :: "provider_id option"
  stored_geminiApiKey :: "jsstring option"
  stored_geminiModelName :: "jsstring option"
  stored_openrouterApiKey :: "jsstring option"
  stored_openrouterModelName :: "jsstring option"
  stored_transcriptionPrompt :: "jsstring option"

datatype host_call = SaveData | AddCommand jsstring | AddSettingTab

record host =
  savedData :: stored_settings
  hostCalls :: "host_call list"

definition DEFAULT_SETTINGS :: TellaSettings where
  "DEFAULT_SETTINGS =
     \<lparr>provider = Gemini,
      geminiApiKey = [],
      geminiModelName = js ''gemini-1.5-flash'',
      openrouterApiKey = [],
      openrouterModelName = js ''openai/whisper-large-v3'',
      transcriptionPrompt = js ''Transcribe the following audio, ensuring to capture every word accurately. Ignore any background noise or non-verbal sounds. The output should be a clean, readable text.''\<rparr>"

definition orDefault :: "'a \<Rightarrow> 'a option \<Rightarrow> 'a" where
  "orDefault d v = (case v of None \<Rightarrow> d | Some x \<Rightarrow> x)"

definition loadSettings :: "host \<Rightarrow> TellaSettings" where
  \<comment> \<open>\<open>Object.assign({}, DEFAULT_SETTINGS, await this.loadData())\<close>\<close>
  "loadSettings h =
     (let d = savedData h in
      \<lparr>provider = orDefault (provider DEFAULT_SETTINGS) (stored_provider d),
       geminiApiKey = orDefault (geminiApiKey DEFAULT_SETTINGS) (stored_geminiApiKey d),
       geminiModelName = orDefault (geminiModelName DEFAULT_SETTINGS) (stored_geminiModelName d),
       openrouterApiKey = orDefault (openrouterApiKey DEFAULT_SETTINGS) (stored_openrouterApiKey d),
       openrouterModelName =
         orDefault (openrouterModelName DEFAULT_SETTINGS) (stored_openrouterModelName d),
       transcriptionPrompt =
         orDefault (transcriptionPrompt DEFAULT_SETTINGS) (stored_transcriptionPrompt d)\<rparr>)"

definition saveData :: "TellaSettings \<Rightarrow> host \<Rightarrow> host" where
  "saveData s h =
     h\<lparr>savedData :=
         \<lparr>stored_provider = Some (provider s),
          stored_geminiApiKey = Some (geminiApiKey s),
          stored_geminiModelName = Some (geminiModelName s),
          stored_openrouterApiKey = Some (openrouterApiKey s),
          stored_openrouterModelName = Some (openrouterModelName s),
          stored_transcriptionPrompt = Some (transcriptionPrompt s)\<rparr>,
       hostCalls := hostCalls h @ [SaveData]\<rparr>"

definition saveSettings :: "Tella \<times> host \<Rightarrow> Tella \<times> host" where
  \<comment> \<open>saves \<open>this.settings\<close> and builds both clients again from the keys\<close>
  "saveSettings st =
     (let plugin = fst st; h = snd st in
      (plugin\<lparr>geminiService := geminiApiKey (settings plugin),
              openrouterService := openrouterApiKey (settings plugin)\<rparr>,
       saveData (settings plugin) h))"

definition onload :: "host \<Rightarrow> Tella \<times> host" where
  "onload h =
     (let loaded = loadSettings h;
          plugin0 = \<lparr>settings = loaded, geminiService = [], openrouterService = []\<rparr>;
          st = (if provider loaded = OpenRouter
                then saveSettings (plugin0\<lparr>settings := loaded\<lparr>provider := Gemini\<rparr>\<rparr>, h)
                else (plugin0, h));
          plugin = (fst st)\<lparr>geminiService := geminiApiKey (settings (fst st)),
                            openrouterService := openrouterApiKey (settings (fst st))\<rparr>
      in (plugin,
          (snd st)\<lparr>hostCalls := hostCalls (snd st)
                      @ [AddCommand (js ''transcribe-audio-in-note''), AddSettingTab]\<rparr>))"

datatype tab_change =
    GeminiApiKeyChanged jsstring
  | GeminiModelNameChanged jsstring
  | TranscriptionPromptChanged jsstring

definition onChange :: "Tella \<times> host \<Rightarrow> tab_change \<Rightarrow> Tella \<times> host" where
  \<comment> \<open>the \<open>onChange\<close> handlers of the settings tab: the three fields it shows (the
      provider and the OpenRouter fields are commented out in the source)\<close>
  "onChange st c =
     (let plugin = fst st; h = snd st in
      case c of
        GeminiApiKeyChanged v \<Rightarrow>
          saveSettings (plugin\<lparr>settings := (settings plugin)\<lparr>geminiApiKey := v\<rparr>\<rparr>, h)
      | GeminiModelNameChanged v \<Rightarrow>
          saveSettings (plugin\<lparr>settings := (settings plugin)\<lparr>geminiModelName := v\<rparr>\<rparr>, h)
      | TranscriptionPromptChanged v \<Rightarrow>
          saveSettings (plugin\<lparr>settings := (settings plugin)\<lparr>transcriptionPrompt := v\<rparr>\<rparr>, h))"

section \<open>The command of \<open>src/main.ts\<close>\<close>

text \<open>
  \<open>src/main.ts\<close> has no provider setting: the placeholder does not name a provider,
  the only client is the Gemini client, and the failure callout of a job carries a
  fixed line instead of the error's message. The scanner, the editor calls,
  \<open>updateCallout\<close> and the Gemini client are those of the sections above.
\<close>

record TellaSettings_main =
  geminiApiKey_main :: jsstring
  transcriptionPrompt_main :: jsstring
  modelName_main :: jsstring

record Tella_main =
  settings_main :: TellaSettings_main
  geminiService_main :: jsstring  \<comment> \<open>the \<open>apiKey\<close> the Gemini client was built with\<close>

definition pendingBlock_main :: "jsstring \<Rightarrow> jsstring \<Rightarrow> jsstring" where
  \<comment> \<open>the template of \<open>placeholderBlock\<close> in \<open>src/main.ts\<close>\<close>
  "pendingBlock_main fileName' originalLink' =
     js ''> [!tip] Audio Note'' @ NL # js ''> '' @ hourglass # js '' Transcribing '' @ fileName'
     @ js ''...'' @ NL # js ''> '' @ originalLink' @ [NL]"

definition processMatch_main ::
  "env \<Rightarrow> jsstring option \<Rightarrow> world \<times> job list \<Rightarrow> regexp_match \<Rightarrow> world \<times> job list" where
  \<comment> \<open>one turn of the loop of step 1 in \<open>src/main.ts\<close>\<close>
  "processMatch_main e activeFile st m =
     (let w = fst st; jobs = snd st;
          originalLink' = whole m;
          fileName' = group1 m;
          matchIndex = index m;
          startPos' = offsetToPos (doc w) matchIndex;
          endPos = offsetToPos (doc w) (matchIndex + length originalLink');
          placeholderBlock' = pendingBlock_main fileName' originalLink';
          w1 = replaceRange placeholderBlock' startPos' endPos w
      in case activeFile of
           None \<Rightarrow>
             (let errorBlock = failedBlock (js ''Active note is not a file.'') originalLink';
                  newEndPos = offsetToPos (doc w1)
                                (posToOffset (doc w1) startPos' + length placeholderBlock')
              in (replaceRange errorBlock startPos' newEndPos w1, jobs))
         | Some path \<Rightarrow>
             (case getFirstLinkpathDest e fileName' path of
                Some f \<Rightarrow>
                  (w1, jobs @ [\<lparr>filePath = getFullPath e f, startPos = startPos',
                                placeholderBlock = placeholderBlock',
                                originalLink = originalLink', fileName = fileName'\<rparr>])
              | None \<Rightarrow>
                  (let errorBlock = failedBlock (js ''Could not find file: '' @ fileName')
                                      originalLink';
                       newEndPos = offsetToPos (doc w1)
                                     (posToOffset (doc w1) startPos' + length placeholderBlock')
                   in (Notice (js ''Could not find the file: '' @ fileName')
                         (replaceRange errorBlock startPos' newEndPos w1), jobs))))"

definition transcribe_main :: "env \<Rightarrow> Tella_main \<Rightarrow> jsstring \<Rightarrow> jsstring + jsstring" where
  \<comment> \<open>the provider call of a job in \<open>src/main.ts\<close>, from its \<open>filePath\<close>\<close>
  "transcribe_main e plugin path =
     GeminiService_transcribeAudio e (geminiService_main plugin) path
       (transcriptionPrompt_main (settings_main plugin)) (modelName_main (settings_main plugin))"

definition finishJob_main :: "env \<Rightarrow> Tella_main \<Rightarrow> job \<Rightarrow> world \<Rightarrow> world" where
  \<comment> \<open>what a job of \<open>src/main.ts\<close> does once its provider call has settled\<close>
  "finishJob_main e plugin j w =
     (case transcribe_main e plugin (filePath j) of
        Inr transcriptionText \<Rightarrow>
          updateCallout j (finalBlock (replaceNewlines transcriptionText) (originalLink j)) w
      | Inl message \<Rightarrow>
          updateCallout j (failedBlock (js ''Check console for details.'') (originalLink j)) w)"

definition runJobs_main :: "env \<Rightarrow> Tella_main \<Rightarrow> nat list \<Rightarrow> job list \<Rightarrow> world \<Rightarrow> world" where
  \<comment> \<open>Step 2 of \<open>src/main.ts\<close>\<close>
  "runJobs_main e plugin schedule jobs w =
     (let started = w\<lparr>calls := calls w @ map (\<lambda>j. (Gemini, filePath j)) jobs\<rparr>;
          finished = foldl (\<lambda>v j. finishJob_main e plugin j v) started (settleOrder schedule jobs)
      in if allSettled schedule jobs
         then Notice (js ''All transcriptions complete!'') finished
         else finished)"

definition collectJobs_main :: "env \<Rightarrow> jsstring option \<Rightarrow> regexp_match list \<Rightarrow> world
     \<Rightarrow> world \<times> job list" where
  \<comment> \<open>Step 1 of \<open>src/main.ts\<close>\<close>
  "collectJobs_main e activeFile audioFiles w =
     foldl (processMatch_main e activeFile) (w, []) (rev audioFiles)"

definition transcribeAudioInNote_main :: "env \<Rightarrow> Tella_main \<Rightarrow> nat list \<Rightarrow> world \<Rightarrow> world" where
  "transcribeAudioInNote_main e plugin schedule w =
     (if geminiApiKey_main (settings_main plugin) = []
      then Notice (js ''Gemini API key is not set. Please configure it in the settings.'') w
      else case activeView e of
        None \<Rightarrow> Notice (js ''No active note to transcribe.'') w
      | Some activeFile \<Rightarrow>
          (let content = doc w;
               audioFiles = matchAll content
           in if length audioFiles = 0 then Notice noAudioNotice w
              else
                (let w0 = Notice (js ''Found '' @ showNat (length audioFiles)
                                  @ js '' audio file(s). Starting transcription...'') w;
                     st = collectJobs_main e activeFile audioFiles w0
                 in runJobs_main e plugin schedule (snd st) (fst st))))"

section \<open>What step 1 leaves behind, match by match\<close>

text \<open>
  The definitions of this section are not taken from the source: they say, in terms of
  the text the command started from, what the loop of step 1 is expected to produce.
  The theorems below compare them with the loop itself. The template of the
  placeholder is a parameter, since the two source files differ in it.
\<close>

definition resolved :: "env \<Rightarrow> jsstring option \<Rightarrow> regexp_match \<Rightarrow> jsstring option" where
  \<comment> \<open>the file a match resolves to, if the note is a file and the resolver finds one\<close>
  "resolved e activeFile m =
     (case activeFile of None \<Rightarrow> None | Some path \<Rightarrow> getFirstLinkpathDest e (group1 m) path)"

definition blockFor ::
  "(jsstring \<Rightarrow> jsstring \<Rightarrow> jsstring) \<Rightarrow> env \<Rightarrow> jsstring option \<Rightarrow> regexp_match \<Rightarrow> jsstring" where
  \<comment> \<open>the block that stands in place of a link after step 1\<close>
  "blockFor pending e activeFile m =
     (case activeFile of
        None \<Rightarrow> failedBlock (js ''Active note is not a file.'') (whole m)
      | Some path \<Rightarrow>
          (case getFirstLinkpathDest e (group1 m) path of
             Some f \<Rightarrow> pending (group1 m) (whole m)
           | None \<Rightarrow> failedBlock (js ''Could not find file: '' @ group1 m) (whole m)))"

definition jobsFor ::
  "(jsstring \<Rightarrow> jsstring \<Rightarrow> jsstring) \<Rightarrow> env \<Rightarrow> jsstring option \<Rightarrow> jsstring \<Rightarrow> regexp_match
     \<Rightarrow> job list" where
  \<comment> \<open>the job of a match that resolves, none for a match that does not\<close>
  "jobsFor pending e activeFile d m =
     (case resolved e activeFile m of
        None \<Rightarrow> []
      | Some f \<Rightarrow>
          [\<lparr>filePath = getFullPath e f, startPos = offsetToPos d (index m),
            placeholderBlock = pending (group1 m) (whole m),
            originalLink = whole m, fileName = group1 m\<rparr>])"

definition noticesFor :: "env \<Rightarrow> jsstring option \<Rightarrow> regexp_match \<Rightarrow> jsstring list" where
  "noticesFor e activeFile m =
     (case activeFile of
        None \<Rightarrow> []
      | Some path \<Rightarrow>
          (case getFirstLinkpathDest e (group1 m) path of
             Some f \<Rightarrow> []
           | None \<Rightarrow> [js ''Could not find the file: '' @ group1 m]))"

definition editsFor ::
  "(jsstring \<Rightarrow> jsstring \<Rightarrow> jsstring) \<Rightarrow> env \<Rightarrow> jsstring option \<Rightarrow> jsstring \<Rightarrow> regexp_match
     \<Rightarrow> edit list" where
  \<comment> \<open>the calls of \<open>replaceRange\<close> for a match: the placeholder over the link, and for a
      match that does not resolve the failure callout over the placeholder\<close>
  "editsFor pending e activeFile d m =
     (let a = index m; b = index m + length (whole m); ph = pending (group1 m) (whole m) in
      \<lparr>inserted = ph, startAt = offsetToPos d a, endAt = offsetToPos d b\<rparr> #
      (case resolved e activeFile m of
         Some f \<Rightarrow> []
       | None \<Rightarrow>
           [\<lparr>inserted = blockFor pending e activeFile m, startAt = offsetToPos d a,
             endAt = offsetToPos (take a d @ ph) (a + length ph)\<rparr>]))"

fun substitute :: "(regexp_match \<Rightarrow> jsstring) \<Rightarrow> nat \<Rightarrow> regexp_match list \<Rightarrow> jsstring \<Rightarrow> jsstring" where
  \<comment> \<open>\<open>substitute blk i ms s\<close>: the text \<open>s\<close>, which starts at offset \<open>i\<close> of the note, with
      the span of every match replaced by its block, from left to right\<close>
  "substitute blk i [] s = s"
| "substitute blk i (m # ms) s =
     take (index m - i) s @ blk m
     @ substitute blk (index m + length (whole m)) ms (drop (index m - i + length (whole m)) s)"

fun placed :: "nat \<Rightarrow> regexp_match list \<Rightarrow> jsstring \<Rightarrow> bool" where
  \<comment> \<open>the matches lie in the text from offset \<open>i\<close> on, from left to right, without
      overlap, each on a copy of its own text\<close>
  "placed i [] d = True"
| "placed i (m # ms) d =
     (i \<le> index m \<and> index m + length (whole m) \<le> length d
      \<and> take (length (whole m)) (drop (index m) d) = whole m
      \<and> placed (index m + length (whole m)) ms d)"

definition stepWorld ::
  "(jsstring \<Rightarrow> jsstring \<Rightarrow> jsstring) \<Rightarrow> env \<Rightarrow> jsstring option \<Rightarrow> jsstring \<Rightarrow> world
     \<Rightarrow> regexp_match \<Rightarrow> world" where
  \<comment> \<open>the state after one turn of the loop, for a match whose span lies in the text;
      \<open>d\<close> is the text the command started from\<close>
  "stepWorld pending e activeFile d w m =
     w\<lparr>doc := take (index m) (doc w) @ blockFor pending e activeFile m
               @ drop (index m + length (whole m)) (doc w),
       notices := notices w @ noticesFor e activeFile m,
       edits := edits w @ editsFor pending e activeFile d m\<rparr>"

definition afterStep1 ::
  "(jsstring \<Rightarrow> jsstring \<Rightarrow> jsstring) \<Rightarrow> env \<Rightarrow> jsstring option \<Rightarrow> nat \<Rightarrow> regexp_match list
     \<Rightarrow> world \<times> job list \<Rightarrow> world \<times> job list" where
  \<comment> \<open>the state and the jobs after the whole loop over the matches from offset \<open>i\<close> on\<close>
  "afterStep1 pending e activeFile i ms st =
     (let w = fst st; d = doc w in
      (w\<lparr>doc := take i d @ substitute (blockFor pending e activeFile) i ms (drop i d),
         notices := notices w @ concat (map (noticesFor e activeFile) (rev ms)),
         edits := edits w @ concat (map (editsFor pending e activeFile d) (rev ms))\<rparr>,
       snd st @ concat (map (jobsFor pending e activeFile d) (rev ms))))"

definition selectedApiKey :: "TellaSettings \<Rightarrow> jsstring option" where
  \<comment> \<open>the API key of the provider the settings select; a provider of another name has
      no key among the settings\<close>
  "selectedApiKey s =
     (if provider s = Gemini then Some (geminiApiKey s)
      else if provider s = OpenRouter then Some (openrouterApiKey s)
      else None)"

definition missingKeyNotice :: "provider_id \<Rightarrow> jsstring" where
  \<comment> \<open>the notice of the command for a provider without a key\<close>
  "missingKeyNotice p =
     (if p = Gemini
      then js ''Gemini API key is not set. Please configure it in the settings.''
      else js ''OpenRouter API key is not set. Please configure it in the settings.'')"

definition exampleSettings :: TellaSettings where
  \<comment> \<open>settings used to instantiate theorems: Gemini with a key\<close>
  "exampleSettings = DEFAULT_SETTINGS\<lparr>geminiApiKey := js ''key''\<rparr>"

definition exampleEnv :: env where
  \<comment> \<open>collaborators used to instantiate theorems: a note \<open>note.md\<close>, a vault in which
      every link but \<open>gone.mp3\<close> resolves to the file of its name, and a provider
      that answers \<open>hello world\<close>\<close>
  "exampleEnv =
     \<lparr>activeView = Some (Some (js ''note.md'')),
      getFirstLinkpathDest = (\<lambda>linkpath sourcePath. if linkpath = js ''gone.mp3'' then None else Some linkpath),
      getFullPath = (\<lambda>path. js ''/vault/'' @ path),
      readFileSync = (\<lambda>path. Inr []),
      modelNameError = js ''[GoogleGenerativeAI Error]: Must provide a model name.'',
      generateContent = (\<lambda>apiKey modelName prompt audio mime. Inr (js ''hello world'')),
      requestUrl = (\<lambda>apiKey name modelName audio. HttpResponse 200 (js ''hello world'') None)\<rparr>"

definition noteWith :: "jsstring \<Rightarrow> world" where
  \<comment> \<open>a run starts from the text of the note, with nothing shown and nothing traced\<close>
  "noteWith d = \<lparr>doc = d, notices = [], edits = [], calls = []\<rparr>"

definition examplePlugin :: Tella where
  \<comment> \<open>the plugin as \<open>onload\<close> leaves it for \<open>exampleSettings\<close>\<close>
  "examplePlugin =
     \<lparr>settings = exampleSettings, geminiService = js ''key'', openrouterService = []\<rparr>"

definition examplePlugin_main :: Tella_main where
  "examplePlugin_main =
     \<lparr>settings_main = \<lparr>geminiApiKey_main = js ''key'', transcriptionPrompt_main = js ''Transcribe.'',
                        modelName_main = js ''gemini-2.5-flash''\<rparr>,
      geminiService_main = js ''key''\<rparr>"

definition exampleJob :: "jsstring \<Rightarrow> job" where
  \<comment> \<open>the job step 1 creates in \<open>exampleEnv\<close> for the link to a file name, Gemini being
      the provider; the position is that of a link at the start of the note\<close>
  "exampleJob name =
     \<lparr>filePath = js ''/vault/'' @ name, startPos = \<lparr>line = 0, ch = 0\<rparr>,
      placeholderBlock = pendingBlock Gemini name (js ''![['' @ name @ js '']]''),
      originalLink = js ''![['' @ name @ js '']]'', fileName = name\<rparr>"

definition echoTranscript :: jsstring where
  \<comment> \<open>a transcript that reads like the placeholder of \<open>b.mp3\<close> without its first line\<close>
  "echoTranscript =
     hourglass # js '' Transcribing b.mp3 with gemini...'' @ NL # js ''![[b.mp3]]'' @ [NL]"

definition echoEnv :: env where
  \<comment> \<open>as \<open>exampleEnv\<close>, but the audio of \<open>a.mp3\<close> is transcribed as \<open>echoTranscript\<close>\<close>
  "echoEnv =
     exampleEnv
       \<lparr>readFileSync := (\<lambda>path. if path = js ''/vault/a.mp3'' then Inr [1] else Inr []),
        generateContent := (\<lambda>apiKey modelName prompt audio mime.
           if audio = [1] then Inr echoTranscript else Inr (js ''hello world''))\<rparr>"

definition failingEnv :: env where
  \<comment> \<open>as \<open>exampleEnv\<close>, but every provider call throws an error with the message
      \<open>rate limited\<close>\<close>
  "failingEnv =
     exampleEnv
       \<lparr>generateContent := (\<lambda>apiKey modelName prompt audio mime. Inl (js ''rate limited'')),
        requestUrl := (\<lambda>apiKey name modelName audio. HttpThrown (js ''rate limited'') None)\<rparr>"

definition clipNote :: jsstring where
  \<comment> \<open>the note of the end-to-end scenarios\<close>
  "clipNote = js ''Intro'' @ NL # js ''![[clip.mp3]]'' @ NL # js ''Outro''"

definition resultBlock :: "jsstring + jsstring \<Rightarrow> jsstring \<Rightarrow> jsstring" where
  \<comment> \<open>the block a job of the command with two providers splices for the outcome of its
      provider call\<close>
  "resultBlock r link =
     (case r of Inr t \<Rightarrow> finalBlock (replaceNewlines t) link | Inl msg \<Rightarrow> failedBlock msg link)"


definition resultBlock_main :: "jsstring + jsstring \<Rightarrow> jsstring \<Rightarrow> jsstring" where
  \<comment> \<open>the block a job of \<open>src/main.ts\<close> splices for the outcome of its provider call\<close>
  "resultBlock_main r link =
     (case r of
        Inr t \<Rightarrow> finalBlock (replaceNewlines t) link
      | Inl msg \<Rightarrow> failedBlock (js ''Check console for details.'') link)"

definition migratedHost :: host where
  \<comment> \<open>a host whose stored settings select OpenRouter\<close>
  "migratedHost =
     \<lparr>savedData = \<lparr>stored_provider = Some OpenRouter, stored_geminiApiKey = Some (js ''key''),
                    stored_geminiModelName = None, stored_openrouterApiKey = Some (js ''or-key''),
                    stored_openrouterModelName = None, stored_transcriptionPrompt = None\<rparr>,
      hostCalls = []\<rparr>"

definition declaredProvider :: "provider_id option \<Rightarrow> bool" where
  \<comment> \<open>the stored settings name a provider of the declared type
      \<open>'gemini' | 'openrouter'\<close>, or none\<close>
  "declaredProvider v = (v = None \<or> v = Some Gemini \<or> v = Some OpenRouter)"

definition strangeHost :: host where
  \<comment> \<open>a host whose stored settings name a provider that is neither \<open>gemini\<close> nor
      \<open>openrouter\<close>\<close>
  "strangeHost =
     \<lparr>savedData = \<lparr>stored_provider = Some (js ''whisper''), stored_geminiApiKey = Some (js ''key''),
                    stored_geminiModelName = None, stored_openrouterApiKey = Some (js ''or-key''),
                    stored_openrouterModelName = None, stored_transcriptionPrompt = None\<rparr>,
      hostCalls = []\<rparr>"

definition openrouterEnv :: env where
  \<comment> \<open>as \<open>exampleEnv\<close>, but the HTTP endpoint answers \<open>from openrouter\<close>\<close>
  "openrouterEnv =
     exampleEnv
       \<lparr>requestUrl := (\<lambda>apiKey name modelName audio. HttpResponse 200 (js ''from openrouter'') None)\<rparr>"

section \<open>Notes made of audio links and plain text\<close>

text \<open>
  The notes the claims about the scanner speak of, built from their parts: text, a
  link, text, a link, and so on. A link is \<open>![[name.ext]]\<close>; the text between the
  links is plain when \<open>![[\<close> occurs nowhere in it; a name is well formed when it has
  no \<open>]\<close> and no line terminator.
\<close>

definition audioLink :: "jsstring \<Rightarrow> jsstring \<Rightarrow> jsstring" where
  "audioLink name ext = js ''![['' @ name @ of_char CHR ''.'' # ext @ js '']]''"

fun document :: "jsstring \<Rightarrow> (jsstring \<times> jsstring \<times> jsstring) list \<Rightarrow> jsstring" where
  \<comment> \<open>the text before the first link, then every link with the text that follows it\<close>
  "document g [] = g"
| "document g ((name, ext, g') # ls) = g @ audioLink name ext @ document g' ls"

fun referencesFrom ::
  "nat \<Rightarrow> jsstring \<Rightarrow> (jsstring \<times> jsstring \<times> jsstring) list \<Rightarrow> regexp_match list" where
  \<comment> \<open>the references expected for \<open>document g ls\<close> when it starts at offset \<open>i\<close>: one for
      each link, in order, at the offset at which the link starts\<close>
  "referencesFrom i g [] = []"
| "referencesFrom i g ((name, ext, g') # ls) =
     \<lparr>whole = audioLink name ext, group1 = name @ of_char CHR ''.'' # ext, group2 = ext,
      index = i + length g\<rparr>
     # referencesFrom (i + length g + length (audioLink name ext)) g' ls"

fun plainText :: "jsstring \<Rightarrow> bool" where
  "plainText [] = True"
| "plainText (c # cs) = (\<not> prefix (js ''![['') (c # cs) \<and> plainText cs)"

definition wellFormedName :: "jsstring \<Rightarrow> bool" where
  "wellFormedName name = list_all (\<lambda>c. c \<noteq> of_char CHR '']'' \<and> \<not> isLineTerminator c) name"

definition wellFormedLinks :: "(jsstring \<times> jsstring \<times> jsstring) list \<Rightarrow> bool" where
  \<comment> \<open>every link has a well-formed name and one of the seven extensions, written as
      in the source, and is followed by plain text\<close>
  "wellFormedLinks ls =
     list_all (\<lambda>(name, ext, g). wellFormedName name \<and> ext \<in> set audioExtensions \<and> plainText g) ls"

section \<open>Properties of the editor\<close>

declare matchAllFrom.simps [simp del]
lemma lineFrom_prefix:
  "lineFrom (length (filter (\<lambda>c. c = NL) p)) (p @ r) + length (takeWhile (\<lambda>c. c \<noteq> NL) (rev p))
     = length p"
proof (induction p)
  case Nil
  show ?case by simp
next
  case (Cons c p)
  show ?case
  proof (cases "c = NL")
    case True
    with Cons show ?thesis
      by (simp add: takeWhile_append)
  next
    case False
    show ?thesis
    proof (cases "NL \<in> set p")
      case True
      then obtain k where k: "length (filter (\<lambda>c. c = NL) p) = Suc k"
        by (metis (mono_tags, lifting) filter_empty_conv length_0_conv not0_implies_Suc)
      with Cons False True show ?thesis
        by (simp add: takeWhile_append)
    next
      case F2: False
      then have "filter (\<lambda>c. c = NL) p = []"
        by (auto simp: filter_empty_conv)
      with F2 False show ?thesis
        by (simp add: takeWhile_append)
    qed
  qed
qed

lemma posToOffset_offsetToPos:
  assumes "a \<le> length d"
  shows "posToOffset d (offsetToPos d a) = a"
proof -
  have "lineFrom (length (filter (\<lambda>c. c = NL) (take a d))) (take a d @ drop a d)
          + length (takeWhile (\<lambda>c. c \<noteq> NL) (rev (take a d))) = length (take a d)"
    by (rule lineFrom_prefix)
  with assms show ?thesis
    by (simp add: posToOffset_def offsetToPos_def Let_def)
qed

lemma offsetToPos_cong:
  "take a d = take a d' \<Longrightarrow> offsetToPos d a = offsetToPos d' a"
  by (simp add: offsetToPos_def)

lemma spliceRange_offsets:
  assumes "a \<le> length d" and "b \<le> length d"
  shows "spliceRange d t (offsetToPos d a) (offsetToPos d b) = take a d @ t @ drop b d"
  using assms by (simp add: spliceRange_def posToOffset_offsetToPos)


lemma posToOffset_offsetToPos_prefix:
  assumes "a \<le> length d" and "a \<le> length d'" and "take a d' = take a d"
  shows "posToOffset d' (offsetToPos d a) = a"
proof -
  have "offsetToPos d a = offsetToPos d' a"
    using assms(3) by (simp add: offsetToPos_def)
  with assms(2) show ?thesis
    by (simp add: posToOffset_offsetToPos)
qed

section \<open>Step 1 in closed form\<close>

lemma processMatch_closed:
  assumes "index m + length (whole m) \<le> length (doc w)"
    and "take (index m + length (whole m)) (doc w) = take (index m + length (whole m)) d"
  shows "processMatch e p activeFile (w, jobs) m =
           (stepWorld (pendingBlock p) e activeFile d w m,
            jobs @ jobsFor (pendingBlock p) e activeFile d m)"
proof -
  let ?a = "index m" and ?b = "index m + length (whole m)"
  let ?ph = "pendingBlock p (group1 m) (whole m)"
  let ?d1 = "take ?a (doc w) @ ?ph @ drop ?b (doc w)"
  have a: "?a \<le> length (doc w)" using assms(1) by simp
  have ta: "take ?a (doc w) = take ?a d"
    using assms(2) by (metis le_add1 min.absorb1 take_take)
  have pa: "offsetToPos (doc w) ?a = offsetToPos d ?a"
    using ta by (simp add: offsetToPos_def)
  have pb: "offsetToPos (doc w) ?b = offsetToPos d ?b"
    using assms(2) by (simp add: offsetToPos_def)
  have d1: "spliceRange (doc w) ?ph (offsetToPos (doc w) ?a) (offsetToPos (doc w) ?b) = ?d1"
    using a assms(1) by (simp add: spliceRange_offsets)
  have rt: "posToOffset ?d1 (offsetToPos (doc w) ?a) = ?a"
    using a by (intro posToOffset_offsetToPos_prefix) simp_all
  have la: "length (take ?a d) = ?a"
    using a ta by (metis length_take min.absorb2)
  have "take (?a + length ?ph) ?d1 = take (?a + length ?ph) (take ?a d @ ?ph)"
    using a la ta by simp
  then have pe: "offsetToPos ?d1 (?a + length ?ph) = offsetToPos (take ?a d @ ?ph) (?a + length ?ph)"
    by (rule offsetToPos_cong)
  have pa1: "offsetToPos (doc w) ?a = offsetToPos ?d1 ?a"
    using a by (simp add: offsetToPos_def)
  have d2: "spliceRange ?d1 err (offsetToPos (doc w) ?a) (offsetToPos ?d1 (?a + length ?ph))
              = take ?a (doc w) @ err @ drop ?b (doc w)" for err
    unfolding pa1 using a assms(1)
    by (subst spliceRange_offsets) simp_all
  show ?thesis
    using d1 d2 rt pe
    by (simp add: processMatch_def stepWorld_def replaceRange_def Notice_def Let_def
        blockFor_def jobsFor_def noticesFor_def editsFor_def resolved_def pa pb
        split: option.splits)
qed


lemma processMatch_main_closed:
  assumes "index m + length (whole m) \<le> length (doc w)"
    and "take (index m + length (whole m)) (doc w) = take (index m + length (whole m)) d"
  shows "processMatch_main e activeFile (w, jobs) m =
           (stepWorld (pendingBlock_main) e activeFile d w m,
            jobs @ jobsFor (pendingBlock_main) e activeFile d m)"
proof -
  let ?a = "index m" and ?b = "index m + length (whole m)"
  let ?ph = "pendingBlock_main (group1 m) (whole m)"
  let ?d1 = "take ?a (doc w) @ ?ph @ drop ?b (doc w)"
  have a: "?a \<le> length (doc w)" using assms(1) by simp
  have ta: "take ?a (doc w) = take ?a d"
    using assms(2) by (metis le_add1 min.absorb1 take_take)
  have pa: "offsetToPos (doc w) ?a = offsetToPos d ?a"
    using ta by (simp add: offsetToPos_def)
  have pb: "offsetToPos (doc w) ?b = offsetToPos d ?b"
    using assms(2) by (simp add: offsetToPos_def)
  have d1: "spliceRange (doc w) ?ph (offsetToPos (doc w) ?a) (offsetToPos (doc w) ?b) = ?d1"
    using a assms(1) by (simp add: spliceRange_offsets)
  have rt: "posToOffset ?d1 (offsetToPos (doc w) ?a) = ?a"
    using a by (intro posToOffset_offsetToPos_prefix) simp_all
  have la: "length (take ?a d) = ?a"
    using a ta by (metis length_take min.absorb2)
  have "take (?a + length ?ph) ?d1 = take (?a + length ?ph) (take ?a d @ ?ph)"
    using a la ta by simp
  then have pe: "offsetToPos ?d1 (?a + length ?ph) = offsetToPos (take ?a d @ ?ph) (?a + length ?ph)"
    by (rule offsetToPos_cong)
  have pa1: "offsetToPos (doc w) ?a = offsetToPos ?d1 ?a"
    using a by (simp add: offsetToPos_def)
  have d2: "spliceRange ?d1 err (offsetToPos (doc w) ?a) (offsetToPos ?d1 (?a + length ?ph))
              = take ?a (doc w) @ err @ drop ?b (doc w)" for err
    unfolding pa1 using a assms(1)
    by (subst spliceRange_offsets) simp_all
  show ?thesis
    using d1 d2 rt pe
    by (simp add: processMatch_main_def stepWorld_def replaceRange_def Notice_def Let_def
        blockFor_def jobsFor_def noticesFor_def editsFor_def resolved_def pa pb
        split: option.splits)
qed


lemma take_take_drop: "i \<le> a \<Longrightarrow> take i d @ take (a - i) (drop i d) = take a d"
  by (metis le_add_diff_inverse take_add)

lemma loop_closed:
  assumes step: "\<And>w jobs m d. index m + length (whole m) \<le> length (doc w) \<Longrightarrow>
      take (index m + length (whole m)) (doc w) = take (index m + length (whole m)) d \<Longrightarrow>
      f (w, jobs) m = (stepWorld pending e activeFile d w m, jobs @ jobsFor pending e activeFile d m)"
    and "placed i ms (doc w)"
  shows "foldl f (w, jobs) (rev ms) = afterStep1 pending e activeFile i ms (w, jobs)"
  using assms(2)
proof (induction ms arbitrary: i)
  case Nil
  show ?case by (simp add: afterStep1_def)
next
  case (Cons m ms)
  define d where "d = doc w"
  define a where "a = index m"
  define b where "b = index m + length (whole m)"
  define blk where "blk = blockFor pending e activeFile"
  from Cons.prems have ia: "i \<le> a" and b: "b \<le> length d" and pl: "placed b ms (doc w)"
    by (simp_all add: a_def b_def d_def)
  define w1 where "w1 = fst (afterStep1 pending e activeFile b ms (w, jobs))"
  define j1 where "j1 = snd (afterStep1 pending e activeFile b ms (w, jobs))"
  have ih: "foldl f (w, jobs) (rev ms) = (w1, j1)"
    using Cons.IH [OF pl] by (simp add: w1_def j1_def)
  have d1: "doc w1 = take b d @ substitute blk b ms (drop b d)"
    by (simp add: afterStep1_def Let_def w1_def d_def blk_def)
  have len: "index m + length (whole m) \<le> length (doc w1)" using b by (simp add: d1 b_def)
  have tk: "take b (doc w1) = take b d" using b by (simp add: d1)
  have st: "f (w1, j1) m = (stepWorld pending e activeFile d w1 m, j1 @ jobsFor pending e activeFile d m)"
    using len tk unfolding b_def by (rule step)
  have ab: "a \<le> b" by (simp add: a_def b_def)
  have ta: "take a (doc w1) = take a d"
    using tk ab by (metis min.absorb1 take_take)
  have dr: "drop b (doc w1) = substitute blk b ms (drop b d)"
    using b by (simp add: d1)
  have dd: "drop (a - i + length (whole m)) (drop i d) = drop b d"
    using ia by (simp add: a_def b_def)
  have sub: "substitute blk i (m # ms) (drop i d)
      = take (a - i) (drop i d) @ blk m @ substitute blk b ms (drop b d)"
  proof -
    have "index m - i + length (whole m) + i = index m + length (whole m)"
      using ia by (simp add: a_def)
    then show ?thesis by (simp add: a_def b_def)
  qed
  have docs: "take a (doc w1) @ blk m @ drop b (doc w1)
      = take i d @ substitute blk i (m # ms) (drop i d)"
    unfolding sub ta dr
    using take_take_drop [OF ia, of d] by (metis append.assoc)
  have "foldl f (w, jobs) (rev (m # ms)) = f (w1, j1) m"
    by (simp add: ih)
  also have "\<dots> = (stepWorld pending e activeFile d w1 m, j1 @ jobsFor pending e activeFile d m)"
    by (rule st)
  also have "\<dots> = afterStep1 pending e activeFile i (m # ms) (w, jobs)"
  proof -
    have n1: "notices w1 = notices w @ concat (map (noticesFor e activeFile) (rev ms))"
      and e1: "edits w1 = edits w @ concat (map (editsFor pending e activeFile d) (rev ms))"
      and c1: "calls w1 = calls w"
      and m1: "world.more w1 = world.more w"
      and jj: "j1 = jobs @ concat (map (jobsFor pending e activeFile d) (rev ms))"
      by (simp_all add: w1_def j1_def afterStep1_def Let_def d_def)
    have "stepWorld pending e activeFile d w1 m
        = w\<lparr>doc := take i d @ substitute blk i (m # ms) (drop i d),
             notices := notices w @ concat (map (noticesFor e activeFile) (rev (m # ms))),
             edits := edits w @ concat (map (editsFor pending e activeFile d) (rev (m # ms)))\<rparr>"
      using docs
      by (intro world.equality)
         (simp_all add: stepWorld_def n1 e1 c1 m1 a_def b_def blk_def)
    then show ?thesis
      by (simp add: afterStep1_def Let_def jj d_def blk_def)
  qed
  finally show ?case .
qed


section \<open>Properties of the scanner\<close>

lemma matchAlternatives_Some:
  "matchAlternatives es s = Some e \<Longrightarrow> e \<in> set es \<and> prefix (e @ js '']]'') s"
  by (induction es) (auto split: if_splits)

lemma matchSuffix_Some:
  "matchSuffix s = Some e \<Longrightarrow> e \<in> set audioExtensions \<and> prefix (of_char CHR ''.'' # e @ js '']]'') s"
  by (auto simp: matchSuffix_def split: list.splits if_splits dest: matchAlternatives_Some)

lemma lazyDot_Some:
  "lazyDot s = Some (n, e) \<Longrightarrow>
     e \<in> set audioExtensions \<and> prefix (n @ of_char CHR ''.'' # e @ js '']]'') s
     \<and> (\<forall>c \<in> set n. \<not> isLineTerminator c)"
proof (induction s arbitrary: n)
  case Nil
  then show ?case by simp
next
  case (Cons c cs)
  show ?case
  proof (cases "matchSuffix (c # cs)")
    case (Some e')
    with Cons.prems have "n = []" "e' = e" by simp_all
    with Some show ?thesis using matchSuffix_Some [of "c # cs" e] by simp
  next
    case None
    with Cons.prems obtain n' where "\<not> isLineTerminator c" "lazyDot cs = Some (n', e)" "n = c # n'"
      by (auto split: if_splits option.splits)
    with Cons.IH [of n'] show ?thesis by simp
  qed
qed

lemma execAt_Some:
  assumes "execAt s = Some (g1, g2)"
  shows "prefix (js ''![['' @ g1 @ js '']]'') s"
    and "g2 \<in> set audioExtensions"
    and "\<exists>n. g1 = n @ of_char CHR ''.'' # g2 \<and> (\<forall>c \<in> set n. \<not> isLineTerminator c)"
proof -
  from assms obtain n where p: "prefix (js ''![['') s" and l: "lazyDot (drop 3 s) = Some (n, g2)"
    and g: "g1 = n @ of_char CHR ''.'' # g2"
    by (auto simp: execAt_def split: if_splits option.splits)
  from p obtain r where s: "s = js ''![['' @ r" by (auto simp: prefix_def)
  then have r: "drop 3 s = r" by (simp add: js_def)
  from lazyDot_Some [OF l] have q: "prefix (n @ of_char CHR ''.'' # g2 @ js '']]'') r"
    and e: "g2 \<in> set audioExtensions" and nt: "\<forall>c \<in> set n. \<not> isLineTerminator c"
    by (simp_all add: r)
  show "prefix (js ''![['' @ g1 @ js '']]'') s"
    using q by (simp add: s g)
  show "g2 \<in> set audioExtensions" by (rule e)
  show "\<exists>n. g1 = n @ of_char CHR ''.'' # g2 \<and> (\<forall>c \<in> set n. \<not> isLineTerminator c)"
    using g nt by blast
qed

lemma matchAllFrom_Nil: "matchAllFrom i [] = []"
  by (subst matchAllFrom.simps) (simp add: execAt_def js_def)

lemma matchAllFrom_None:
  "execAt (c # cs) = None \<Longrightarrow> matchAllFrom i (c # cs) = matchAllFrom (Suc i) cs"
  by (subst matchAllFrom.simps) simp

lemma matchAllFrom_Some:
  "execAt s = Some (g1, g2) \<Longrightarrow>
     matchAllFrom i s =
       \<lparr>whole = js ''![['' @ g1 @ js '']]'', group1 = g1, group2 = g2, index = i\<rparr>
       # matchAllFrom (i + (length g1 + 5)) (drop (length g1 + 5) s)"
proof -
  assume a: "execAt s = Some (g1, g2)"
  have l: "length (js ''![['' @ g1 @ js '']]'') = length g1 + 5"
    by (simp add: js_def)
  have ne: "js ''![['' \<noteq> []"
    by (simp add: js_def)
  show ?thesis
    using a by (subst matchAllFrom.simps) (simp add: Let_def l ne del: length_append)
qed

lemma placed_weaken: "placed (Suc i) ms d \<Longrightarrow> placed i ms d"
  by (cases ms) auto

lemma placed_matchAllFrom:
  "length pre = i \<Longrightarrow> placed i (matchAllFrom i s) (pre @ s)"
proof (induction i s arbitrary: pre rule: matchAllFrom.induct)
  case (1 i s)
  show ?case
  proof (cases "execAt s")
    case None
    show ?thesis
    proof (cases s)
      case Nil
      then show ?thesis by (simp add: matchAllFrom_Nil)
    next
      case (Cons c cs)
      have "placed (Suc i) (matchAllFrom (Suc i) cs) ((pre @ [c]) @ cs)"
        using "1.IH"(1) [OF None Cons, of "pre @ [c]"] "1.prems" by simp
      then have "placed (Suc i) (matchAllFrom (Suc i) cs) (pre @ s)" by (simp add: Cons)
      then show ?thesis
        using None Cons by (simp add: matchAllFrom_None placed_weaken)
    qed
  next
    case (Some g)
    obtain g1 g2 where g: "g = (g1, g2)" by (cases g)
    define w where "w = js ''![['' @ g1 @ js '']]''"
    have lw: "length w = length g1 + 5" by (simp add: w_def js_def)
    then have wl: "length w \<noteq> 0" by simp
    from execAt_Some(1) [of s g1 g2] Some g obtain r where s: "s = w @ r"
      by (auto simp: prefix_def w_def)
    have "placed (i + length w) (matchAllFrom (i + length w) (drop (length w) s)) ((pre @ w) @ drop (length w) s)"
      using "1.IH"(3) [OF Some g [symmetric] w_def wl, of "pre @ w"] "1.prems" by simp
    then have rec: "placed (i + length w) (matchAllFrom (i + length w) (drop (length w) s)) (pre @ s)"
      by (simp add: s)
    have "matchAllFrom i s = \<lparr>whole = w, group1 = g1, group2 = g2, index = i\<rparr>
            # matchAllFrom (i + length w) (drop (length w) s)"
      using matchAllFrom_Some [of s g1 g2 i] Some g by (simp add: w_def [symmetric] lw)
    then show ?thesis
      using rec "1.prems" by (simp add: s)
  qed
qed

lemma placed_matchAll: "placed 0 (matchAll d) d"
  using placed_matchAllFrom [of "[]" 0 d] by (simp add: matchAll_def)

lemma collectJobs_closed:
  "collectJobs e p activeFile (matchAll (doc w)) w
     = afterStep1 (pendingBlock p) e activeFile 0 (matchAll (doc w)) (w, [])"
  unfolding collectJobs_def
  by (rule loop_closed [OF processMatch_closed placed_matchAll])

lemma collectJobs_main_closed:
  "collectJobs_main e activeFile (matchAll (doc w)) w
     = afterStep1 (pendingBlock_main) e activeFile 0 (matchAll (doc w)) (w, [])"
  unfolding collectJobs_main_def
  by (rule loop_closed [OF processMatch_main_closed placed_matchAll])

lemma ext_cases:
  "e \<in> set audioExtensions \<Longrightarrow>
     e = js ''mp3'' \<or> e = js ''wav'' \<or> e = js ''m4a'' \<or> e = js ''flac'' \<or> e = js ''ogg''
     \<or> e = js ''aac'' \<or> e = js ''webm''"
  by (simp add: audioExtensions_def)

lemma ext_chars:
  assumes "e \<in> set audioExtensions"
  shows "of_char CHR '']'' \<notin> set e" and "of_char CHR ''.'' \<notin> set e"
  using ext_cases [OF assms] by (elim disjE; simp add: js_def)+

lemma matchAlternatives_exact:
  assumes "e \<in> set audioExtensions"
  shows "matchAlternatives audioExtensions (e @ js '']]'' @ r) = Some e"
  using ext_cases [OF assms]
  by (elim disjE) (simp_all add: audioExtensions_def js_def)

lemma takeWhile_bracket:
  "of_char CHR '']'' \<notin> set x \<Longrightarrow>
     takeWhile (\<lambda>c. c \<noteq> (of_char CHR '']'' :: jschar)) (x @ js '']]'' @ r) = x"
  by (simp add: takeWhile_append js_def)

lemma matchAlternatives_inside:
  assumes "of_char CHR '']'' \<notin> set n" and "e \<in> set audioExtensions"
  shows "matchAlternatives audioExtensions (n @ of_char CHR ''.'' # e @ js '']]'' @ r) = None"
proof (rule ccontr)
  assume "matchAlternatives audioExtensions (n @ of_char CHR ''.'' # e @ js '']]'' @ r) \<noteq> None"
  then obtain e' where m: "matchAlternatives audioExtensions (n @ of_char CHR ''.'' # e @ js '']]'' @ r) = Some e'"
    by auto
  from matchAlternatives_Some [OF m] obtain r' where e': "e' \<in> set audioExtensions"
    and eq: "n @ of_char CHR ''.'' # e @ js '']]'' @ r = e' @ js '']]'' @ r'"
    by (auto simp: prefix_def)
  have "of_char CHR '']'' \<notin> set (n @ of_char CHR ''.'' # e)"
    using assms ext_chars(1) [OF assms(2)] by simp
  then have "takeWhile (\<lambda>c. c \<noteq> (of_char CHR '']'' :: jschar)) ((n @ of_char CHR ''.'' # e) @ js '']]'' @ r)
      = n @ of_char CHR ''.'' # e"
    by (rule takeWhile_bracket)
  moreover have "takeWhile (\<lambda>c. c \<noteq> (of_char CHR '']'' :: jschar)) (e' @ js '']]'' @ r') = e'"
    using ext_chars(1) [OF e'] by (rule takeWhile_bracket)
  ultimately have "e' = n @ of_char CHR ''.'' # e"
    using eq by simp
  then have "of_char CHR ''.'' \<in> set e'" by simp
  with ext_chars(2) [OF e'] show False by simp
qed

lemma lazyDot_link:
  assumes "wellFormedName n" and "e \<in> set audioExtensions"
  shows "lazyDot (n @ of_char CHR ''.'' # e @ js '']]'' @ r) = Some (n, e)"
  using assms(1)
proof (induction n)
  case Nil
  show ?case
    using matchAlternatives_exact [OF assms(2), of r] by (simp add: matchSuffix_def)
next
  case (Cons c n)
  then have c: "c \<noteq> of_char CHR '']''" "\<not> isLineTerminator c" and n: "wellFormedName n"
    by (simp_all add: wellFormedName_def)
  have nb: "of_char CHR '']'' \<notin> set n"
    using n by (auto simp: wellFormedName_def list_all_iff)
  have "matchSuffix ((c # n) @ of_char CHR ''.'' # e @ js '']]'' @ r) = None"
    using matchAlternatives_inside [OF nb assms(2), of r] by (simp add: matchSuffix_def)
  then show ?case
    using c Cons.IH [OF n] by simp
qed

lemma execAt_link:
  assumes "wellFormedName n" and "e \<in> set audioExtensions"
  shows "execAt (audioLink n e @ r) = Some (n @ of_char CHR ''.'' # e, e)"
proof -
  have "drop 3 (audioLink n e @ r) = n @ of_char CHR ''.'' # e @ js '']]'' @ r"
    by (simp add: audioLink_def js_def)
  moreover have "prefix (js ''![['') (audioLink n e @ r)"
    by (simp add: audioLink_def)
  ultimately show ?thesis
    using lazyDot_link [OF assms, of r] by (simp add: execAt_def)
qed

lemma execAt_plain:
  assumes "plainText (c # g)" and "r = [] \<or> hd r = of_char CHR ''!''"
  shows "execAt (c # g @ r) = None"
proof -
  have "\<not> prefix (js ''![['') (c # g @ r)"
  proof
    assume p: "prefix (js ''![['') (c # g @ r)"
    from assms(1) have np: "\<not> prefix (js ''![['') (c # g)" by simp
    show False
    proof (cases g)
      case Nil
      with p assms(2) show False by (cases r) (auto simp: js_def)
    next
      case (Cons c' g')
      show False
      proof (cases g')
        case Nil
        with Cons p assms(2) show False by (cases r) (auto simp: js_def)
      next
        case (Cons c'' g'')
        with \<open>g = c' # g'\<close> p np show False by (simp add: js_def)
      qed
    qed
  qed
  then show ?thesis by (simp add: execAt_def)
qed

lemma matchAllFrom_plain:
  assumes "plainText g" and "r = [] \<or> hd r = of_char CHR ''!''"
  shows "matchAllFrom i (g @ r) = matchAllFrom (i + length g) r"
  using assms(1)
proof (induction g arbitrary: i)
  case Nil
  show ?case by simp
next
  case (Cons c g)
  from Cons.prems have g: "plainText g" by simp
  have "matchAllFrom i ((c # g) @ r) = matchAllFrom (Suc i) (g @ r)"
    using execAt_plain [OF Cons.prems assms(2)] by (simp add: matchAllFrom_None)
  with Cons.IH [OF g, of "Suc i"] show ?case by simp
qed

lemma matchAllFrom_document:
  assumes "plainText g" and "wellFormedLinks ls"
  shows "matchAllFrom i (document g ls) = referencesFrom i g ls"
  using assms
proof (induction ls arbitrary: i g)
  case Nil
  show ?case
    using matchAllFrom_plain [OF Nil.prems(1), of "[]" i] by (simp add: matchAllFrom_Nil)
next
  case (Cons l ls)
  obtain n e g' where l: "l = (n, e, g')" by (cases l)
  from Cons.prems(2) have n: "wellFormedName n" and e: "e \<in> set audioExtensions"
    and g': "plainText g'" and ls: "wellFormedLinks ls"
    by (simp_all add: wellFormedLinks_def l)
  let ?rest = "document g' ls"
  have len: "length (audioLink n e) = length (n @ of_char CHR ''.'' # e) + 5"
    by (simp add: audioLink_def js_def)
  have w: "js ''![['' @ (n @ of_char CHR ''.'' # e) @ js '']]'' = audioLink n e"
    by (simp add: audioLink_def)
  have "matchAllFrom i (document g (l # ls)) = matchAllFrom (i + length g) (audioLink n e @ ?rest)"
    using matchAllFrom_plain [OF Cons.prems(1), of "audioLink n e @ ?rest" i]
    by (simp add: l audioLink_def js_def)
  also have "\<dots> = \<lparr>whole = audioLink n e, group1 = n @ of_char CHR ''.'' # e, group2 = e,
                     index = i + length g\<rparr>
      # matchAllFrom (i + length g + length (audioLink n e)) ?rest"
    using matchAllFrom_Some [OF execAt_link [OF n e, of ?rest], of "i + length g"]
    unfolding w len [symmetric] by simp
  also have "\<dots> = referencesFrom i g (l # ls)"
    using Cons.IH [OF g' ls] by (simp add: l)
  finally show ?case .
qed

lemma length_referencesFrom: "length (referencesFrom i g ls) = length ls"
  by (induction ls arbitrary: i g) auto

section \<open>Properties of the search for a placeholder\<close>

lemma indexOf_Some:
  "indexOf sub s = Some k \<Longrightarrow> s = take k s @ sub @ drop (k + length sub) s"
proof (induction s arbitrary: k)
  case Nil
  then show ?case by (simp split: if_splits)
next
  case (Cons c cs)
  show ?case
  proof (cases "prefix sub (c # cs)")
    case True
    with Cons.prems have "k = 0" by simp
    with True show ?thesis by (auto simp: prefix_def)
  next
    case False
    with Cons.prems obtain k' where k: "k = Suc k'" "indexOf sub cs = Some k'" by auto
    from Cons.IH [OF k(2)] show ?thesis by (simp add: k(1))
  qed
qed

lemma indexOf_Some_le: "indexOf sub s = Some k \<Longrightarrow> k + length sub \<le> length s"
proof (induction s arbitrary: k)
  case Nil
  then show ?case by (simp split: if_splits)
next
  case (Cons c cs)
  show ?case
  proof (cases "prefix sub (c # cs)")
    case True
    with Cons.prems have "k = 0" by simp
    with True show ?thesis using prefix_length_le by fastforce
  next
    case False
    with Cons.prems obtain k' where k: "k = Suc k'" "indexOf sub cs = Some k'" by auto
    from Cons.IH [OF k(2)] show ?thesis by (simp add: k(1))
  qed
qed

lemma indexOf_None_iff: "indexOf sub s = None \<longleftrightarrow> \<not> sublist sub s"
proof (induction s)
  case Nil
  show ?case by simp
next
  case (Cons c cs)
  show ?case
    using Cons by (auto simp: sublist_Cons_right)
qed

lemma indexOf_prefix_stable:
  "indexOf sub (x @ y) = Some k \<Longrightarrow> k + length sub \<le> length x \<Longrightarrow> indexOf sub (x @ y') = Some k"
proof (induction x arbitrary: k)
  case Nil
  then have "sub = []" "k = 0" by simp_all
  then show ?case by (cases y') simp_all
next
  case (Cons c x)
  show ?case
  proof (cases "prefix sub (c # x @ y)")
    case True
    with Cons.prems have k: "k = 0" by simp
    with Cons.prems(2) have "length sub \<le> length (c # x)" by simp
    with True have "prefix sub (c # x)"
      by (metis append_Cons prefix_length_prefix prefix_append prefixI Sublist.prefix_def)
    then have "prefix sub (c # x @ y')" by (metis append_Cons prefix_prefix)
    with k show ?thesis by simp
  next
    case False
    with Cons.prems obtain k' where k: "k = Suc k'" "indexOf sub (x @ y) = Some k'" by auto
    with Cons.prems(2) have le: "k' + length sub \<le> length x" by simp
    have np: "\<not> prefix sub (c # x @ y')"
    proof
      assume p: "prefix sub (c # x @ y')"
      from le k Cons.prems(2) have "length sub \<le> length (c # x)" by simp
      with p have "prefix sub (c # x)"
        by (metis append_Cons prefix_length_prefix prefixI)
      then have "prefix sub (c # x @ y)" by (metis append_Cons prefix_prefix)
      with False show False by simp
    qed
    from Cons.IH [OF k(2) le] np show ?thesis by (simp add: k(1))
  qed
qed

lemma updateCallout_found:
  assumes "indexOf (placeholderBlock j) (doc w) = Some k"
  shows "updateCallout j blk w =
           w\<lparr>doc := take k (doc w) @ blk @ drop (k + length (placeholderBlock j)) (doc w),
             edits := edits w @ [\<lparr>inserted = blk, startAt = offsetToPos (doc w) k,
                                  endAt = offsetToPos (doc w) (k + length (placeholderBlock j))\<rparr>]\<rparr>"
proof -
  from indexOf_Some_le [OF assms] have "k + length (placeholderBlock j) \<le> length (doc w)" .
  then show ?thesis
    using assms by (simp add: updateCallout_def replaceRange_def spliceRange_offsets)
qed

lemma updateCallout_missing:
  assumes "indexOf (placeholderBlock j) (doc w) = None"
  shows "updateCallout j blk w =
           w\<lparr>notices := notices w @ [js ''Could not update transcription for '' @ fileName j @ js ''.'']\<rparr>"
  using assms by (simp add: updateCallout_def Notice_def)

section \<open>The scanner on notes of well-formed links\<close>

text \<open>
  C1 (as amended). For every note made of plain text and N well-formed audio links
  whose extension is one of mp3, wav, m4a, flac, ogg, aac, webm written exactly so (in
  lower case), the scanner returns exactly N references, in the order of the links,
  each with the text of its link, the file name, and the offset at which the link
  starts; the reference ends where its link ends.
\<close>

theorem scanner_finds_every_link:
  assumes "plainText g" and "wellFormedLinks ls"
  shows "matchAll (document g ls) = referencesFrom 0 g ls
         \<and> length (matchAll (document g ls)) = length ls
         \<and> placed 0 (matchAll (document g ls)) (document g ls)"
  using matchAllFrom_document [OF assms, of 0] placed_matchAll [of "document g ls"]
  by (simp add: matchAll_def length_referencesFrom)

theorem scanner_finds_every_link_witness:
  "plainText (js ''Intro '')
   \<and> wellFormedLinks [(js ''clip'', js ''mp3'', js '' and ''), (js ''talk.v2'', js ''webm'', [])]
   \<and> map index (matchAll (js ''Intro ![[clip.mp3]] and ![[talk.v2.webm]]'')) = [6, 24]
   \<and> map whole (matchAll (js ''Intro ![[clip.mp3]] and ![[talk.v2.webm]]''))
       = [js ''![[clip.mp3]]'', js ''![[talk.v2.webm]]'']"
proof -
  have g: "plainText (js ''Intro '')"
    by (simp add: js_def)
  have ls: "wellFormedLinks [(js ''clip'', js ''mp3'', js '' and ''), (js ''talk.v2'', js ''webm'', [])]"
    by (simp add: wellFormedLinks_def wellFormedName_def audioExtensions_def isLineTerminator_def js_def)
  have d: "document (js ''Intro '') [(js ''clip'', js ''mp3'', js '' and ''), (js ''talk.v2'', js ''webm'', [])]
             = js ''Intro ![[clip.mp3]] and ![[talk.v2.webm]]''"
    by (simp add: audioLink_def js_def)
  have "matchAll (js ''Intro ![[clip.mp3]] and ![[talk.v2.webm]]'')
          = referencesFrom 0 (js ''Intro '')
              [(js ''clip'', js ''mp3'', js '' and ''), (js ''talk.v2'', js ''webm'', [])]"
    using scanner_finds_every_link [OF g ls] unfolding d by simp
  then show ?thesis
    using g ls by (simp add: audioLink_def js_def)
qed

text \<open>
  C1 as stated compares the extension without regard to case. The expression of the
  source has no \<open>i\<close> flag: a link whose extension is written in upper case is not
  found.
\<close>

theorem scanner_upper_case_counterexample:
  "plainText [] \<and> wellFormedName (js ''clip'')
   \<and> toLowerCase (js ''MP3'') \<in> set audioExtensions
   \<and> document [] [(js ''clip'', js ''MP3'', [])] = js ''![[clip.MP3]]''
   \<and> matchAll (js ''![[clip.MP3]]'') = []"
  by (simp add: wellFormedName_def isLineTerminator_def toLowerCase_def audioExtensions_def
      audioLink_def matchAll_def matchAllFrom.simps execAt_def matchSuffix_def js_def)

section \<open>Properties of step 2\<close>

lemma updateCallout_calls: "calls (updateCallout j blk w) = calls w"
  by (simp add: updateCallout_def replaceRange_def Notice_def split: option.splits)

lemma finishJob_calls: "calls (finishJob e plugin j w) = calls w"
  by (simp add: finishJob_def updateCallout_calls split: sum.splits)


lemma foldl_calls:
  assumes "\<And>j v. calls (f v j) = calls v"
  shows "calls (foldl f w jobs) = calls w"
  by (induction jobs arbitrary: w) (simp_all add: assms)

lemma runJobs_calls:
  "calls (runJobs e plugin schedule jobs w)
     = calls w @ map (\<lambda>j. (clientFor (provider (settings plugin)), filePath j)) jobs"
  by (simp add: runJobs_def Let_def Notice_def foldl_calls [where f = "\<lambda>v j. finishJob e plugin j v"] finishJob_calls)


lemma filter_remdups_zero:
  "filter (\<lambda>i. i = 0) (remdups s) = (if (0::nat) \<in> set s then [0] else [])"
  by (induction s) auto

lemma settleOrder_single: "0 \<in> set schedule \<Longrightarrow> settleOrder schedule [j] = [j]"
  by (simp add: settleOrder_def filter_remdups_zero)

lemma matchAll_clip:
  "matchAll (js ''Intro'' @ NL # js ''![[clip.mp3]]'' @ NL # js ''Outro'') =
     [\<lparr>whole = js ''![[clip.mp3]]'', group1 = js ''clip.mp3'', group2 = js ''mp3'', index = 6\<rparr>]"
  by (simp add: matchAll_def matchAllFrom.simps execAt_def matchSuffix_def audioExtensions_def
      isLineTerminator_def js_def NL_def)

section \<open>The provider calls of a run\<close>


lemma afterStep1_parts:
  "doc (fst (afterStep1 pending e af i ms (w, jobs)))
     = take i (doc w) @ substitute (blockFor pending e af) i ms (drop i (doc w))"
  "notices (fst (afterStep1 pending e af i ms (w, jobs)))
     = notices w @ concat (map (noticesFor e af) (rev ms))"
  "edits (fst (afterStep1 pending e af i ms (w, jobs)))
     = edits w @ concat (map (editsFor pending e af (doc w)) (rev ms))"
  "calls (fst (afterStep1 pending e af i ms (w, jobs))) = calls w"
  "snd (afterStep1 pending e af i ms (w, jobs))
     = jobs @ concat (map (jobsFor pending e af (doc w)) (rev ms))"
  by (simp_all add: afterStep1_def Let_def)

lemma Notice_frame:
  "doc (Notice message w) = doc w" "calls (Notice message w) = calls w"
  "edits (Notice message w) = edits w"
  by (simp_all add: Notice_def)

lemma provider_names [simp]: "Gemini \<noteq> OpenRouter" "OpenRouter \<noteq> Gemini"
  by (simp_all add: Gemini_def OpenRouter_def js_def)

lemma clientFor_declared [simp]: "clientFor Gemini = Gemini" "clientFor OpenRouter = OpenRouter"
  by (simp_all add: clientFor_def provider_names)

lemma transcribe_client:
  "transcribe e plugin path =
     (if clientFor (provider (settings plugin)) = Gemini
      then GeminiService_transcribeAudio e (geminiService plugin) path
             (transcriptionPrompt (settings plugin)) (geminiModelName (settings plugin))
      else OpenRouterService_transcribeAudio e (openrouterService plugin) path
             (openrouterModelName (settings plugin)))"
  by (simp add: transcribe_def clientFor_def)

lemma key_cases [consumes 1, case_names gemini openrouter other]:
  assumes "selectedApiKey s \<noteq> Some []"
  obtains "provider s = Gemini" and "geminiApiKey s \<noteq> []"
    | "provider s = OpenRouter" and "openrouterApiKey s \<noteq> []"
    | "provider s \<noteq> Gemini" and "provider s \<noteq> OpenRouter"
  using assms by (auto simp: selectedApiKey_def split: if_splits)

lemma command_calls:
  assumes "selectedApiKey (settings plugin) \<noteq> Some []" and "activeView e = Some af"
  shows "calls (transcribeAudioInNote e plugin schedule w)
     = calls w @ map (\<lambda>j. (clientFor (provider (settings plugin)), filePath j))
         (concat (map (jobsFor (pendingBlock (provider (settings plugin))) e af (doc w))
                    (rev (matchAll (doc w)))))"
proof -
  have k: "\<not> (provider (settings plugin) = Gemini \<and> geminiApiKey (settings plugin) = [])"
      "\<not> (provider (settings plugin) = OpenRouter \<and> openrouterApiKey (settings plugin) = [])"
    using assms(1) by (auto simp: selectedApiKey_def provider_names)
  show ?thesis
  proof (cases "matchAll (doc w) = []")
    case True
    with k show ?thesis
      by (simp add: transcribeAudioInNote_def Let_def assms(2) Notice_def)
  next
    case False
    define w0 where "w0 = Notice (js ''Found '' @ showNat (length (matchAll (doc w)))
                                  @ js '' audio file(s). Starting transcription with ''
                                  @ provider (settings plugin) @ js '' (''
                                  @ (if provider (settings plugin) = Gemini
                                     then geminiModelName (settings plugin)
                                     else openrouterModelName (settings plugin))
                                  @ js '')...'') w"
    have d0: "doc w0 = doc w" and c0: "calls w0 = calls w"
      by (simp_all add: w0_def Notice_def)
    have run: "transcribeAudioInNote e plugin schedule w
        = runJobs e plugin schedule
            (snd (collectJobs e (provider (settings plugin)) af (matchAll (doc w0)) w0))
            (fst (collectJobs e (provider (settings plugin)) af (matchAll (doc w0)) w0))"
      using assms(1)
    proof (cases rule: key_cases)
      case gemini
      with False show ?thesis
        by (simp add: transcribeAudioInNote_def Let_def assms(2) w0_def Notice_frame)
    next
      case openrouter
      with False show ?thesis
        by (simp add: transcribeAudioInNote_def Let_def assms(2) w0_def Notice_frame provider_names)
    next
      case other
      with False show ?thesis
        by (simp add: transcribeAudioInNote_def Let_def assms(2) w0_def Notice_frame)
    qed
    show ?thesis
      unfolding run runJobs_calls collectJobs_closed afterStep1_parts
      by (simp add: d0 c0)
  qed
qed


lemma command_calls_any:
  "\<exists>paths. calls (transcribeAudioInNote e plugin schedule w)
     = calls w @ map (Pair (clientFor (provider (settings plugin)))) paths"
proof (cases "selectedApiKey (settings plugin) \<noteq> Some [] \<and> activeView e \<noteq> None")
  case True
  then obtain af where "activeView e = Some af" by auto
  with True command_calls [of plugin e af schedule w]
  have "calls (transcribeAudioInNote e plugin schedule w)
     = calls w @ map (Pair (clientFor (provider (settings plugin))))
         (map filePath (concat (map (jobsFor (pendingBlock (provider (settings plugin))) e af (doc w))
                    (rev (matchAll (doc w))))))"
    by (simp add: comp_def)
  then show ?thesis by blast
next
  case False
  then have "calls (transcribeAudioInNote e plugin schedule w) = calls w"
    by (auto simp: transcribeAudioInNote_def Let_def Notice_def selectedApiKey_def
          split: if_splits)
  then have "calls (transcribeAudioInNote e plugin schedule w)
      = calls w @ map (Pair (clientFor (provider (settings plugin)))) []"
    by simp
  then show ?thesis by blast
qed

section \<open>A note with one link, end to end\<close>

lemma length_js: "length (js s) = length s"
  by (simp add: js_def)

lemma indexOf_pending_clip:
  "indexOf (pendingBlock p (js ''clip.mp3'') (js ''![[clip.mp3]]''))
     (js ''Intro'' @ NL # pendingBlock p (js ''clip.mp3'') (js ''![[clip.mp3]]'') @ NL # js ''Outro'')
   = Some 6"
  by (simp add: pendingBlock_def js_def NL_def hourglass_def)

lemma indexOf_pending_main_clip:
  "indexOf (pendingBlock_main (js ''clip.mp3'') (js ''![[clip.mp3]]''))
     (js ''Intro'' @ NL # pendingBlock_main (js ''clip.mp3'') (js ''![[clip.mp3]]'') @ NL # js ''Outro'')
   = Some 6"
  by (simp add: pendingBlock_main_def js_def NL_def hourglass_def)

lemma step1_clip:
  assumes "getFirstLinkpathDest e (js ''clip.mp3'') path = Some f"
    and "doc w = clipNote"
  shows "afterStep1 pending e (Some path) 0 (matchAll clipNote) (w, [])
     = (w\<lparr>doc := js ''Intro'' @ NL # pending (js ''clip.mp3'') (js ''![[clip.mp3]]'') @ NL # js ''Outro'',
          edits := edits w @ [\<lparr>inserted = pending (js ''clip.mp3'') (js ''![[clip.mp3]]''),
                               startAt = \<lparr>line = 1, ch = 0\<rparr>, endAt = \<lparr>line = 1, ch = 13\<rparr>\<rparr>]\<rparr>,
        [\<lparr>filePath = getFullPath e f, startPos = \<lparr>line = 1, ch = 0\<rparr>,
          placeholderBlock = pending (js ''clip.mp3'') (js ''![[clip.mp3]]''),
          originalLink = js ''![[clip.mp3]]'', fileName = js ''clip.mp3''\<rparr>])"
proof -
  have m: "matchAll clipNote =
     [\<lparr>whole = js ''![[clip.mp3]]'', group1 = js ''clip.mp3'', group2 = js ''mp3'', index = 6\<rparr>]"
    unfolding clipNote_def by (rule matchAll_clip)
  have t: "take 6 clipNote = js ''Intro'' @ [NL]" "drop 19 clipNote = NL # js ''Outro''"
    by (simp_all add: clipNote_def js_def)
  have p1: "offsetToPos clipNote 6 = \<lparr>line = 1, ch = 0\<rparr>"
    and p2: "offsetToPos clipNote 19 = \<lparr>line = 1, ch = 13\<rparr>"
    by (simp_all add: offsetToPos_def clipNote_def js_def NL_def)
  show ?thesis
    unfolding m
    by (simp add: afterStep1_def Let_def assms blockFor_def jobsFor_def noticesFor_def editsFor_def
        resolved_def t p1 p2 length_js)
qed

lemma single_link_run:
  assumes key: "selectedApiKey (settings plugin) \<noteq> Some []"
    and view: "activeView e = Some (Some path)"
    and res: "getFirstLinkpathDest e (js ''clip.mp3'') path = Some f"
    and sched: "0 \<in> set schedule"
    and d: "doc w = clipNote"
  shows "doc (transcribeAudioInNote e plugin schedule w)
     = js ''Intro'' @ NL # resultBlock (transcribe e plugin (getFullPath e f)) (js ''![[clip.mp3]]'')
       @ NL # js ''Outro''"
proof -
  define p where "p = provider (settings plugin)"
  define ph where "ph = pendingBlock p (js ''clip.mp3'') (js ''![[clip.mp3]]'')"
  define w0 where "w0 = Notice (js ''Found '' @ showNat (length (matchAll clipNote))
                                  @ js '' audio file(s). Starting transcription with ''
                                  @ p @ js '' (''
                                  @ (if p = Gemini then geminiModelName (settings plugin)
                                     else openrouterModelName (settings plugin))
                                  @ js '')...'') w"
  have d0: "doc w0 = clipNote" by (simp add: w0_def Notice_def d)
  define j where "j = \<lparr>filePath = getFullPath e f, startPos = \<lparr>line = 1, ch = 0\<rparr>,
          placeholderBlock = ph, originalLink = js ''![[clip.mp3]]'', fileName = js ''clip.mp3''\<rparr>"
  define w1 where "w1 = w0\<lparr>doc := js ''Intro'' @ NL # ph @ NL # js ''Outro'',
          edits := edits w0 @ [\<lparr>inserted = ph,
                               startAt = \<lparr>line = 1, ch = 0\<rparr>, endAt = \<lparr>line = 1, ch = 13\<rparr>\<rparr>]\<rparr>"
  have c: "collectJobs e p (Some path) (matchAll clipNote) w0 = (w1, [j])"
    using collectJobs_closed [of e p "Some path" w0] step1_clip [OF res d0, of "pendingBlock p"]
    by (simp add: d0 w1_def j_def ph_def)
  have ne: "matchAll clipNote \<noteq> []"
    by (simp add: clipNote_def matchAll_clip)
  have run: "transcribeAudioInNote e plugin schedule w = runJobs e plugin schedule [j] w1"
    using key
  proof (cases rule: key_cases)
    case gemini
    with ne c show ?thesis
      by (simp add: transcribeAudioInNote_def Let_def view d w0_def p_def)
  next
    case openrouter
    with ne c show ?thesis
      by (simp add: transcribeAudioInNote_def Let_def view d w0_def p_def provider_names)
  next
    case other
    with ne c show ?thesis
      by (simp add: transcribeAudioInNote_def Let_def view d w0_def p_def)
  qed
  have found: "indexOf (placeholderBlock j) (doc w1) = Some 6"
    by (simp add: j_def w1_def ph_def indexOf_pending_clip)
  have "doc (updateCallout j blk v) = js ''Intro'' @ NL # blk @ NL # js ''Outro''"
    if "doc v = doc w1" for blk v
  proof -
    have "indexOf (placeholderBlock j) (doc v) = Some 6" using found that by simp
    from updateCallout_found [OF this] have "doc (updateCallout j blk v)
        = take 6 (doc v) @ blk @ drop (6 + length (placeholderBlock j)) (doc v)" by simp
    also have "\<dots> = js ''Intro'' @ NL # blk @ NL # js ''Outro''"
    proof -
      have dv: "doc v = (js ''Intro'' @ [NL]) @ placeholderBlock j @ (NL # js ''Outro'')"
        by (simp add: that w1_def j_def)
      have l6: "length (js ''Intro'' @ [NL]) = 6"
        by (simp add: length_js)
      have "take 6 (doc v) = js ''Intro'' @ [NL]"
        unfolding dv l6 [symmetric] by simp
      moreover have "drop (6 + length (placeholderBlock j)) (doc v) = NL # js ''Outro''"
        unfolding dv l6 [symmetric] by simp
      ultimately show ?thesis by simp
    qed
    finally show ?thesis .
  qed
  note upd = this
  have fin: "doc (finishJob e plugin j v)
      = js ''Intro'' @ NL # resultBlock (transcribe e plugin (getFullPath e f)) (js ''![[clip.mp3]]'')
        @ NL # js ''Outro''" if "doc v = doc w1" for v
    using upd [OF that]
    by (simp add: finishJob_def resultBlock_def j_def split: sum.splits)
  show ?thesis
    unfolding run
    by (simp add: runJobs_def Let_def settleOrder_single [OF sched] Notice_def fin)
qed

lemma single_link_run_main:
  assumes key: "geminiApiKey_main (settings_main plugin) \<noteq> []"
    and view: "activeView e = Some (Some path)"
    and res: "getFirstLinkpathDest e (js ''clip.mp3'') path = Some f"
    and sched: "0 \<in> set schedule"
    and d: "doc w = clipNote"
  shows "doc (transcribeAudioInNote_main e plugin schedule w)
     = js ''Intro'' @ NL # resultBlock_main (transcribe_main e plugin (getFullPath e f)) (js ''![[clip.mp3]]'')
       @ NL # js ''Outro''"
proof -
  define ph where "ph = pendingBlock_main (js ''clip.mp3'') (js ''![[clip.mp3]]'')"
  define w0 where "w0 = Notice (js ''Found '' @ showNat (length (matchAll clipNote))
                                  @ js '' audio file(s). Starting transcription...'') w"
  have d0: "doc w0 = clipNote" by (simp add: w0_def Notice_def d)
  define j where "j = \<lparr>filePath = getFullPath e f, startPos = \<lparr>line = 1, ch = 0\<rparr>,
          placeholderBlock = ph, originalLink = js ''![[clip.mp3]]'', fileName = js ''clip.mp3''\<rparr>"
  define w1 where "w1 = w0\<lparr>doc := js ''Intro'' @ NL # ph @ NL # js ''Outro'',
          edits := edits w0 @ [\<lparr>inserted = ph,
                               startAt = \<lparr>line = 1, ch = 0\<rparr>, endAt = \<lparr>line = 1, ch = 13\<rparr>\<rparr>]\<rparr>"
  have c: "collectJobs_main e (Some path) (matchAll clipNote) w0 = (w1, [j])"
    using collectJobs_main_closed [of e "Some path" w0] step1_clip [OF res d0, of pendingBlock_main]
    by (simp add: d0 w1_def j_def ph_def)
  have ne: "matchAll clipNote \<noteq> []"
    by (simp add: clipNote_def matchAll_clip)
  have run: "transcribeAudioInNote_main e plugin schedule w = runJobs_main e plugin schedule [j] w1"
    using key ne c
    by (simp add: transcribeAudioInNote_main_def Let_def view d w0_def)
  have found: "indexOf (placeholderBlock j) (doc w1) = Some 6"
    by (simp add: j_def w1_def ph_def indexOf_pending_main_clip)
  have "doc (updateCallout j blk v) = js ''Intro'' @ NL # blk @ NL # js ''Outro''"
    if "doc v = doc w1" for blk v
  proof -
    have "indexOf (placeholderBlock j) (doc v) = Some 6" using found that by simp
    from updateCallout_found [OF this] have "doc (updateCallout j blk v)
        = take 6 (doc v) @ blk @ drop (6 + length (placeholderBlock j)) (doc v)" by simp
    also have "\<dots> = js ''Intro'' @ NL # blk @ NL # js ''Outro''"
    proof -
      have dv: "doc v = (js ''Intro'' @ [NL]) @ placeholderBlock j @ (NL # js ''Outro'')"
        by (simp add: that w1_def j_def)
      have l6: "length (js ''Intro'' @ [NL]) = 6"
        by (simp add: length_js)
      have "take 6 (doc v) = js ''Intro'' @ [NL]"
        unfolding dv l6 [symmetric] by simp
      moreover have "drop (6 + length (placeholderBlock j)) (doc v) = NL # js ''Outro''"
        unfolding dv l6 [symmetric] by simp
      ultimately show ?thesis by simp
    qed
    finally show ?thesis .
  qed
  note upd = this
  have fin: "doc (finishJob_main e plugin j v)
      = js ''Intro'' @ NL # resultBlock_main (transcribe_main e plugin (getFullPath e f)) (js ''![[clip.mp3]]'')
        @ NL # js ''Outro''" if "doc v = doc w1" for v
    using upd [OF that]
    by (simp add: finishJob_main_def resultBlock_main_def j_def split: sum.splits)
  show ?thesis
    unfolding run
    by (simp add: runJobs_main_def Let_def settleOrder_single [OF sched] Notice_def fin)
qed

lemma transcribe_example:
  "transcribe exampleEnv examplePlugin (js ''/vault/clip.mp3'') = Inr (js ''hello world'')"
  by (simp add: transcribe_def examplePlugin_def exampleSettings_def DEFAULT_SETTINGS_def
      GeminiService_transcribeAudio_def getMimeType_def lastSegment_def toLowerCase_def
      exampleEnv_def Let_def js_def)

lemma transcribe_main_example:
  "transcribe_main exampleEnv examplePlugin_main (js ''/vault/clip.mp3'') = Inr (js ''hello world'')"
  by (simp add: transcribe_main_def examplePlugin_main_def
      GeminiService_transcribeAudio_def getMimeType_def lastSegment_def toLowerCase_def
      exampleEnv_def Let_def js_def)

lemma transcribe_failing:
  "transcribe failingEnv examplePlugin (js ''/vault/clip.mp3'') = Inl (js ''rate limited'')"
  by (simp add: transcribe_def examplePlugin_def exampleSettings_def DEFAULT_SETTINGS_def
      GeminiService_transcribeAudio_def getMimeType_def lastSegment_def toLowerCase_def
      failingEnv_def exampleEnv_def Let_def js_def)

lemma transcribe_main_failing:
  "transcribe_main failingEnv examplePlugin_main (js ''/vault/clip.mp3'') = Inl (js ''rate limited'')"
  by (simp add: transcribe_main_def examplePlugin_main_def
      GeminiService_transcribeAudio_def getMimeType_def lastSegment_def toLowerCase_def
      failingEnv_def exampleEnv_def Let_def js_def)

lemma example_facts:
  "activeView exampleEnv = Some (Some (js ''note.md''))"
  "getFirstLinkpathDest exampleEnv (js ''clip.mp3'') (js ''note.md'') = Some (js ''clip.mp3'')"
  "getFullPath exampleEnv (js ''clip.mp3'') = js ''/vault/clip.mp3''"
  "activeView failingEnv = Some (Some (js ''note.md''))"
  "getFirstLinkpathDest failingEnv (js ''clip.mp3'') (js ''note.md'') = Some (js ''clip.mp3'')"
  "getFullPath failingEnv (js ''clip.mp3'') = js ''/vault/clip.mp3''"
  "selectedApiKey (settings examplePlugin) \<noteq> Some []"
  "geminiApiKey_main (settings_main examplePlugin_main) \<noteq> []"
  "doc (noteWith d) = d"
  by (simp_all add: exampleEnv_def failingEnv_def examplePlugin_def examplePlugin_main_def
      exampleSettings_def DEFAULT_SETTINGS_def selectedApiKey_def noteWith_def js_def)

lemma replaceNewlines_hello: "replaceNewlines (js ''hello world'') = js ''hello world''"
  by (simp add: replaceNewlines_def js_def NL_def)

text \<open>
  C5. The note is \<open>Intro\n![[clip.mp3]]\nOutro\<close>, the link resolves to a file, no
  API key the command checks is empty, the provider call of the job returns
  \<open>hello world\<close>, and the job settles. Then the text of the note after the command is
  \<open>Intro\n> [!tip] Audio Note\n> hello world\n> ![[clip.mp3]]\n\nOutro\<close>, for the
  command with two providers and for the command of \<open>src/main.ts\<close>.
\<close>

theorem end_to_end_success:
  assumes "activeView e = Some (Some path)"
    and "getFirstLinkpathDest e (js ''clip.mp3'') path = Some f"
    and "0 \<in> set schedule"
    and "doc w = js ''Intro'' @ NL # js ''![[clip.mp3]]'' @ NL # js ''Outro''"
  shows "(selectedApiKey (settings plugin) \<noteq> Some []
            \<and> transcribe e plugin (getFullPath e f) = Inr (js ''hello world'')
          \<longrightarrow> doc (transcribeAudioInNote e plugin schedule w)
              = js ''Intro'' @ NL # js ''> [!tip] Audio Note'' @ NL # js ''> hello world'' @ NL
                # js ''> ![[clip.mp3]]'' @ NL # NL # js ''Outro'')
         \<and> (geminiApiKey_main (settings_main plugin') \<noteq> []
            \<and> transcribe_main e plugin' (getFullPath e f) = Inr (js ''hello world'')
          \<longrightarrow> doc (transcribeAudioInNote_main e plugin' schedule w)
              = js ''Intro'' @ NL # js ''> [!tip] Audio Note'' @ NL # js ''> hello world'' @ NL
                # js ''> ![[clip.mp3]]'' @ NL # NL # js ''Outro'')"
proof -
  have d: "doc w = clipNote" using assms(4) by (simp add: clipNote_def)
  show ?thesis
    using single_link_run [OF _ assms(1,2,3) d, of plugin]
      single_link_run_main [OF _ assms(1,2,3) d, of plugin']
    by (auto simp: resultBlock_def resultBlock_main_def finalBlock_def replaceNewlines_hello)
       (simp_all add: js_def)
qed

theorem end_to_end_success_witness:
  "doc (transcribeAudioInNote exampleEnv examplePlugin [0]
          (noteWith (js ''Intro'' @ NL # js ''![[clip.mp3]]'' @ NL # js ''Outro'')))
     = js ''Intro'' @ NL # js ''> [!tip] Audio Note'' @ NL # js ''> hello world'' @ NL
       # js ''> ![[clip.mp3]]'' @ NL # NL # js ''Outro''
   \<and> doc (transcribeAudioInNote_main exampleEnv examplePlugin_main [0]
          (noteWith (js ''Intro'' @ NL # js ''![[clip.mp3]]'' @ NL # js ''Outro'')))
     = js ''Intro'' @ NL # js ''> [!tip] Audio Note'' @ NL # js ''> hello world'' @ NL
       # js ''> ![[clip.mp3]]'' @ NL # NL # js ''Outro''"
proof -
  have s: "(0::nat) \<in> set [0]" by simp
  show ?thesis
    using end_to_end_success [OF example_facts(1) example_facts(2) s example_facts(9),
        of examplePlugin examplePlugin_main]
    by (simp add: example_facts transcribe_example transcribe_main_example)
qed

text \<open>
  C6 (as amended). The note is \<open>Intro\n![[clip.mp3]]\nOutro\<close>, the link resolves, no
  API key the command checks is empty, and the provider call of the job throws an error
  with a message.
  After the command with two providers the link is replaced by the failure callout
  that carries this message: for \<open>rate limited\<close> the callout is
  \<open>> [!warning] Transcription Failed\n> rate limited\n> ![[clip.mp3]]\n\<close>. After the
  command of \<open>src/main.ts\<close> the callout carries the fixed line
  \<open>Check console for details.\<close> in place of the message.
\<close>

theorem end_to_end_failure:
  assumes "activeView e = Some (Some path)"
    and "getFirstLinkpathDest e (js ''clip.mp3'') path = Some f"
    and "0 \<in> set schedule"
    and "doc w = js ''Intro'' @ NL # js ''![[clip.mp3]]'' @ NL # js ''Outro''"
  shows "(selectedApiKey (settings plugin) \<noteq> Some []
            \<and> transcribe e plugin (getFullPath e f) = Inl message
          \<longrightarrow> doc (transcribeAudioInNote e plugin schedule w)
              = js ''Intro'' @ NL # js ''> [!warning] Transcription Failed'' @ NL # js ''> '' @ message
                @ NL # js ''> ![[clip.mp3]]'' @ NL # NL # js ''Outro'')
         \<and> (geminiApiKey_main (settings_main plugin') \<noteq> []
            \<and> transcribe_main e plugin' (getFullPath e f) = Inl message
          \<longrightarrow> doc (transcribeAudioInNote_main e plugin' schedule w)
              = js ''Intro'' @ NL # js ''> [!warning] Transcription Failed'' @ NL
                # js ''> Check console for details.'' @ NL # js ''> ![[clip.mp3]]'' @ NL # NL
                # js ''Outro'')"
proof -
  have d: "doc w = clipNote" using assms(4) by (simp add: clipNote_def)
  show ?thesis
    using single_link_run [OF _ assms(1,2,3) d, of plugin]
      single_link_run_main [OF _ assms(1,2,3) d, of plugin']
    by (auto simp: resultBlock_def resultBlock_main_def failedBlock_def)
       (simp_all add: js_def)
qed

theorem end_to_end_failure_witness:
  "doc (transcribeAudioInNote failingEnv examplePlugin [0]
          (noteWith (js ''Intro'' @ NL # js ''![[clip.mp3]]'' @ NL # js ''Outro'')))
     = js ''Intro'' @ NL # js ''> [!warning] Transcription Failed'' @ NL # js ''> rate limited''
       @ NL # js ''> ![[clip.mp3]]'' @ NL # NL # js ''Outro''
   \<and> doc (transcribeAudioInNote_main failingEnv examplePlugin_main [0]
          (noteWith (js ''Intro'' @ NL # js ''![[clip.mp3]]'' @ NL # js ''Outro'')))
     = js ''Intro'' @ NL # js ''> [!warning] Transcription Failed'' @ NL
       # js ''> Check console for details.'' @ NL # js ''> ![[clip.mp3]]'' @ NL # NL # js ''Outro''"
proof -
  have s: "(0::nat) \<in> set [0]" by simp
  show ?thesis
    using end_to_end_failure [OF example_facts(4) example_facts(5) s example_facts(9),
        of examplePlugin "js ''rate limited''" examplePlugin_main]
    by (simp add: example_facts transcribe_failing transcribe_main_failing) (simp add: js_def)
qed

text \<open>
  C6 as stated fails for \<open>src/main.ts\<close>: the provider call throws \<open>rate limited\<close>,
  and the callout with that message occurs nowhere in the note after the command.
\<close>

theorem end_to_end_failure_main_counterexample:
  "transcribe_main failingEnv examplePlugin_main (js ''/vault/clip.mp3'') = Inl (js ''rate limited'')
   \<and> indexOf (js ''> [!warning] Transcription Failed'' @ NL # js ''> rate limited'' @ NL
              # js ''> ![[clip.mp3]]'' @ [NL])
        (doc (transcribeAudioInNote_main failingEnv examplePlugin_main [0]
          (noteWith (js ''Intro'' @ NL # js ''![[clip.mp3]]'' @ NL # js ''Outro'')))) = None"
proof -
  have s: "(0::nat) \<in> set [0]" by simp
  have d: "doc (noteWith (js ''Intro'' @ NL # js ''![[clip.mp3]]'' @ NL # js ''Outro'')) = clipNote"
    by (simp add: noteWith_def clipNote_def)
  have "doc (transcribeAudioInNote_main failingEnv examplePlugin_main [0]
          (noteWith (js ''Intro'' @ NL # js ''![[clip.mp3]]'' @ NL # js ''Outro'')))
     = js ''Intro'' @ NL # failedBlock (js ''Check console for details.'') (js ''![[clip.mp3]]'')
       @ NL # js ''Outro''"
    using single_link_run_main [OF example_facts(8) example_facts(4) example_facts(5) s d]
    by (simp add: example_facts transcribe_main_failing resultBlock_main_def)
  then show ?thesis
    by (simp add: transcribe_main_failing) (simp add: failedBlock_def js_def NL_def)
qed

section \<open>Splicing a result twice\<close>

lemma matchAll_duplicate:
  "matchAll (js ''![[a.mp3]]![[a.mp3]]'') =
     [\<lparr>whole = js ''![[a.mp3]]'', group1 = js ''a.mp3'', group2 = js ''mp3'', index = 0\<rparr>,
      \<lparr>whole = js ''![[a.mp3]]'', group1 = js ''a.mp3'', group2 = js ''mp3'', index = 10\<rparr>]"
  by (simp add: matchAll_def matchAllFrom.simps execAt_def matchSuffix_def audioExtensions_def
      isLineTerminator_def js_def)

lemma step1_duplicate:
  "collectJobs exampleEnv Gemini (Some (js ''note.md'')) (matchAll (js ''![[a.mp3]]![[a.mp3]]''))
       (noteWith (js ''![[a.mp3]]![[a.mp3]]''))
   = (\<lparr>doc = placeholderBlock (exampleJob (js ''a.mp3'')) @ placeholderBlock (exampleJob (js ''a.mp3'')),
       notices = [],
       edits = [\<lparr>inserted = placeholderBlock (exampleJob (js ''a.mp3'')),
                 startAt = \<lparr>line = 0, ch = 10\<rparr>, endAt = \<lparr>line = 0, ch = 20\<rparr>\<rparr>,
                \<lparr>inserted = placeholderBlock (exampleJob (js ''a.mp3'')),
                 startAt = \<lparr>line = 0, ch = 0\<rparr>, endAt = \<lparr>line = 0, ch = 10\<rparr>\<rparr>],
       calls = []\<rparr>,
      [(exampleJob (js ''a.mp3''))\<lparr>startPos := \<lparr>line = 0, ch = 10\<rparr>\<rparr>, exampleJob (js ''a.mp3'')])"
proof -
  have d: "doc (noteWith (js ''![[a.mp3]]![[a.mp3]]'')) = js ''![[a.mp3]]![[a.mp3]]''"
    by (simp add: noteWith_def)
  show ?thesis
    using collectJobs_closed [of exampleEnv Gemini "Some (js ''note.md'')" "noteWith (js ''![[a.mp3]]![[a.mp3]]'')"]
    unfolding d matchAll_duplicate
    by (simp add: afterStep1_def noteWith_def blockFor_def jobsFor_def editsFor_def noticesFor_def
        resolved_def exampleEnv_def exampleJob_def offsetToPos_def Let_def)
       (simp add: js_def NL_def pendingBlock_def Gemini_def)
qed

text \<open>
  C4 (as amended). When the placeholder of a job occurs in the note, \<open>updateCallout\<close>
  replaces its first occurrence by the block. If the text that results holds no
  further occurrence of the placeholder (it occurred once, and the block inserted
  does not bring it back), a second call with the same placeholder finds nothing:
  it shows the notice that the transcription could not be updated and leaves the
  text and the trace of edits as they were.
\<close>

theorem splice_twice_changes_once:
  assumes "indexOf (placeholderBlock j) (doc w) = Some k"
    and "\<not> sublist (placeholderBlock j) (doc (updateCallout j blk w))"
  shows "doc (updateCallout j blk w)
           = take k (doc w) @ blk @ drop (k + length (placeholderBlock j)) (doc w)
         \<and> updateCallout j blk (updateCallout j blk w)
           = Notice (js ''Could not update transcription for '' @ fileName j @ js ''.'')
               (updateCallout j blk w)
         \<and> doc (updateCallout j blk (updateCallout j blk w)) = doc (updateCallout j blk w)
         \<and> edits (updateCallout j blk (updateCallout j blk w)) = edits (updateCallout j blk w)"
proof -
  have none: "indexOf (placeholderBlock j) (doc (updateCallout j blk w)) = None"
    using assms(2) by (simp add: indexOf_None_iff)
  show ?thesis
    using updateCallout_missing [OF none, of blk]
    by (simp add: updateCallout_found [OF assms(1)] Notice_def)
qed

theorem splice_twice_changes_once_witness:
  "indexOf (placeholderBlock (exampleJob (js ''a.mp3'')))
       (doc (noteWith (js ''Intro '' @ placeholderBlock (exampleJob (js ''a.mp3''))))) = Some 6
   \<and> doc (updateCallout (exampleJob (js ''a.mp3'')) (js ''done'')
            (updateCallout (exampleJob (js ''a.mp3'')) (js ''done'')
               (noteWith (js ''Intro '' @ placeholderBlock (exampleJob (js ''a.mp3''))))))
       = js ''Intro done''
   \<and> length (notices (updateCallout (exampleJob (js ''a.mp3'')) (js ''done'')
            (updateCallout (exampleJob (js ''a.mp3'')) (js ''done'')
               (noteWith (js ''Intro '' @ placeholderBlock (exampleJob (js ''a.mp3''))))))) = 1"
proof -
  let ?j = "exampleJob (js ''a.mp3'')"
  let ?w = "noteWith (js ''Intro '' @ placeholderBlock ?j)"
  have found: "indexOf (placeholderBlock ?j) (doc ?w) = Some 6"
    by (simp add: noteWith_def exampleJob_def pendingBlock_def Gemini_def js_def NL_def hourglass_def)
  have first: "doc (updateCallout ?j (js ''done'') ?w) = js ''Intro done''"
    by (simp add: updateCallout_found [OF found]) (simp add: noteWith_def js_def)
  have gone: "\<not> sublist (placeholderBlock ?j) (doc (updateCallout ?j (js ''done'') ?w))"
    unfolding first indexOf_None_iff [symmetric]
    by (simp add: exampleJob_def pendingBlock_def Gemini_def js_def NL_def hourglass_def)
  have n1: "notices (updateCallout ?j (js ''done'') ?w) = []"
    by (simp add: updateCallout_found [OF found]) (simp add: noteWith_def)
  from splice_twice_changes_once [OF found gone]
  have "doc (updateCallout ?j (js ''done'') (updateCallout ?j (js ''done'') ?w)) = js ''Intro done''"
    and "notices (updateCallout ?j (js ''done'') (updateCallout ?j (js ''done'') ?w))
           = [js ''Could not update transcription for '' @ fileName ?j @ js ''.'']"
    by (simp_all add: first n1 Notice_def)
  with found show ?thesis by simp
qed

text \<open>
  C4 as stated speaks of every state of the note. After step 1 on the note
  \<open>![[a.mp3]]![[a.mp3]]\<close> the placeholder stands in the text twice; the second call
  then finds the second copy, changes the text again and reports nothing.
\<close>

theorem splice_twice_duplicate_counterexample:
  "doc (fst (collectJobs exampleEnv Gemini (Some (js ''note.md''))
              (matchAll (js ''![[a.mp3]]![[a.mp3]]'')) (noteWith (js ''![[a.mp3]]![[a.mp3]]''))))
     = placeholderBlock (exampleJob (js ''a.mp3'')) @ placeholderBlock (exampleJob (js ''a.mp3''))
   \<and> doc (updateCallout (exampleJob (js ''a.mp3'')) (js ''done'')
         (updateCallout (exampleJob (js ''a.mp3'')) (js ''done'')
            (noteWith (placeholderBlock (exampleJob (js ''a.mp3'')) @ placeholderBlock (exampleJob (js ''a.mp3''))))))
     = js ''donedone''
   \<and> doc (updateCallout (exampleJob (js ''a.mp3'')) (js ''done'')
            (noteWith (placeholderBlock (exampleJob (js ''a.mp3'')) @ placeholderBlock (exampleJob (js ''a.mp3'')))))
     = js ''done'' @ placeholderBlock (exampleJob (js ''a.mp3''))
   \<and> notices (updateCallout (exampleJob (js ''a.mp3'')) (js ''done'')
         (updateCallout (exampleJob (js ''a.mp3'')) (js ''done'')
            (noteWith (placeholderBlock (exampleJob (js ''a.mp3'')) @ placeholderBlock (exampleJob (js ''a.mp3'')))))) = []"
proof -
  let ?j = "exampleJob (js ''a.mp3'')"
  let ?w = "noteWith (placeholderBlock ?j @ placeholderBlock ?j)"
  have f1: "indexOf (placeholderBlock ?j) (doc ?w) = Some 0"
    by (simp add: noteWith_def exampleJob_def pendingBlock_def Gemini_def js_def NL_def hourglass_def)
  have d1: "doc (updateCallout ?j (js ''done'') ?w) = js ''done'' @ placeholderBlock ?j"
    by (simp add: updateCallout_found [OF f1]) (simp add: noteWith_def)
  have f2: "indexOf (placeholderBlock ?j) (doc (updateCallout ?j (js ''done'') ?w)) = Some 4"
    unfolding d1
    by (simp add: exampleJob_def pendingBlock_def Gemini_def js_def NL_def hourglass_def)
  have d2: "doc (updateCallout ?j (js ''done'') (updateCallout ?j (js ''done'') ?w)) = js ''donedone''"
    by (simp add: updateCallout_found [OF f2] d1) (simp add: js_def)
  have n1: "notices (updateCallout ?j (js ''done'') ?w) = []"
    by (simp add: updateCallout_found [OF f1]) (simp add: noteWith_def)
  have n2: "notices (updateCallout ?j (js ''done'') (updateCallout ?j (js ''done'') ?w)) = []"
    by (simp add: updateCallout_found [OF f2] n1)
  have s1: "doc (fst (collectJobs exampleEnv Gemini (Some (js ''note.md''))
              (matchAll (js ''![[a.mp3]]![[a.mp3]]'')) (noteWith (js ''![[a.mp3]]![[a.mp3]]''))))
     = placeholderBlock ?j @ placeholderBlock ?j"
    by (simp add: step1_duplicate)
  from s1 d2 d1 n2 show ?thesis by simp
qed

section \<open>Two jobs finishing in either order\<close>

text \<open>
  C9 (as amended). Let the placeholders of two jobs stand in the note one after the
  other, each at its first occurrence, and let the block of the job on the left not
  bring about an earlier occurrence of the placeholder of the job on the right.
  Then the two calls of \<open>updateCallout\<close> give the same text in either order: each
  placeholder replaced by the block of its own job, the rest untouched.
\<close>

theorem splices_commute:
  assumes d: "doc w = A @ placeholderBlock j1 @ B @ placeholderBlock j2 @ C"
    and f1: "indexOf (placeholderBlock j1) (doc w) = Some (length A)"
    and f2: "indexOf (placeholderBlock j2) (doc w)
               = Some (length A + length (placeholderBlock j1) + length B)"
    and keep: "indexOf (placeholderBlock j2) (A @ R1 @ B @ placeholderBlock j2 @ C)
               = Some (length A + length R1 + length B)"
  shows "doc (updateCallout j2 R2 (updateCallout j1 R1 w)) = A @ R1 @ B @ R2 @ C
         \<and> doc (updateCallout j1 R1 (updateCallout j2 R2 w)) = A @ R1 @ B @ R2 @ C"
proof -
  let ?P1 = "placeholderBlock j1" and ?P2 = "placeholderBlock j2"
  have a1: "doc (updateCallout j1 R1 w) = A @ R1 @ B @ ?P2 @ C"
    by (simp add: updateCallout_found [OF f1] d)
  have k2: "indexOf ?P2 (doc (updateCallout j1 R1 w)) = Some (length A + length R1 + length B)"
    using keep by (simp add: a1)
  have r12: "doc (updateCallout j2 R2 (updateCallout j1 R1 w)) = A @ R1 @ B @ R2 @ C"
    by (simp add: updateCallout_found [OF k2] a1)
  have a2: "doc (updateCallout j2 R2 w) = A @ ?P1 @ B @ R2 @ C"
    by (simp add: updateCallout_found [OF f2] d)
  have "indexOf ?P1 ((A @ ?P1) @ B @ ?P2 @ C) = Some (length A)"
    using f1 by (simp add: d)
  then have "indexOf ?P1 ((A @ ?P1) @ B @ R2 @ C) = Some (length A)"
    by (rule indexOf_prefix_stable) simp
  then have k1: "indexOf ?P1 (doc (updateCallout j2 R2 w)) = Some (length A)"
    by (simp add: a2)
  have r21: "doc (updateCallout j1 R1 (updateCallout j2 R2 w)) = A @ R1 @ B @ R2 @ C"
    by (simp add: updateCallout_found [OF k1] a2)
  from r12 r21 show ?thesis by simp
qed

text \<open>
  C9 as stated asks only that the two placeholders differ and occur in the note. In
  \<open>echoEnv\<close> the transcript of \<open>a.mp3\<close> makes the block of that job start with the
  text of the placeholder of \<open>b.mp3\<close>. When the job of \<open>a.mp3\<close> finishes first, the
  job of \<open>b.mp3\<close> then writes into the block of \<open>a.mp3\<close>, and its own placeholder
  stays; when the job of \<open>b.mp3\<close> finishes first, it does not.
\<close>

theorem splices_commute_counterexample:
  "placeholderBlock (exampleJob (js ''a.mp3'')) \<noteq> placeholderBlock (exampleJob (js ''b.mp3''))
   \<and> indexOf (placeholderBlock (exampleJob (js ''a.mp3'')))
        (placeholderBlock (exampleJob (js ''a.mp3'')) @ js '' '' @ placeholderBlock (exampleJob (js ''b.mp3'')))
      = Some 0
   \<and> indexOf (placeholderBlock (exampleJob (js ''b.mp3'')))
        (placeholderBlock (exampleJob (js ''a.mp3'')) @ js '' '' @ placeholderBlock (exampleJob (js ''b.mp3'')))
      = Some 72
   \<and> doc (finishJob echoEnv examplePlugin (exampleJob (js ''b.mp3''))
          (finishJob echoEnv examplePlugin (exampleJob (js ''a.mp3''))
             (noteWith (placeholderBlock (exampleJob (js ''a.mp3'')) @ js '' ''
                        @ placeholderBlock (exampleJob (js ''b.mp3''))))))
     \<noteq> doc (finishJob echoEnv examplePlugin (exampleJob (js ''a.mp3''))
          (finishJob echoEnv examplePlugin (exampleJob (js ''b.mp3''))
             (noteWith (placeholderBlock (exampleJob (js ''a.mp3'')) @ js '' ''
                        @ placeholderBlock (exampleJob (js ''b.mp3''))))))"
  by code_simp


theorem splices_commute_witness:
  "indexOf (placeholderBlock (exampleJob (js ''a.mp3'')))
       (placeholderBlock (exampleJob (js ''a.mp3'')) @ js '' '' @ placeholderBlock (exampleJob (js ''b.mp3'')))
     = Some 0
   \<and> indexOf (placeholderBlock (exampleJob (js ''b.mp3'')))
       (placeholderBlock (exampleJob (js ''a.mp3'')) @ js '' '' @ placeholderBlock (exampleJob (js ''b.mp3'')))
     = Some 72
   \<and> doc (updateCallout (exampleJob (js ''b.mp3'')) (js ''two'')
          (updateCallout (exampleJob (js ''a.mp3'')) (js ''one'')
             (noteWith (placeholderBlock (exampleJob (js ''a.mp3'')) @ js '' ''
                        @ placeholderBlock (exampleJob (js ''b.mp3'')))))) = js ''one two''
   \<and> doc (updateCallout (exampleJob (js ''a.mp3'')) (js ''one'')
          (updateCallout (exampleJob (js ''b.mp3'')) (js ''two'')
             (noteWith (placeholderBlock (exampleJob (js ''a.mp3'')) @ js '' ''
                        @ placeholderBlock (exampleJob (js ''b.mp3'')))))) = js ''one two''"
proof -
  let ?ja = "exampleJob (js ''a.mp3'')" and ?jb = "exampleJob (js ''b.mp3'')"
  let ?w = "noteWith (placeholderBlock ?ja @ js '' '' @ placeholderBlock ?jb)"
  have d: "doc ?w = [] @ placeholderBlock ?ja @ js '' '' @ placeholderBlock ?jb @ []"
    by (simp add: noteWith_def)
  have la: "length (placeholderBlock ?ja) = 71"
    by (simp add: exampleJob_def pendingBlock_def Gemini_def js_def)
  have f1: "indexOf (placeholderBlock ?ja) (doc ?w) = Some (length ([] :: jsstring))"
    by (simp add: noteWith_def exampleJob_def pendingBlock_def Gemini_def js_def NL_def hourglass_def)
  have f2: "indexOf (placeholderBlock ?jb) (doc ?w)
              = Some (length ([] :: jsstring) + length (placeholderBlock ?ja) + length (js '' ''))"
    unfolding la
    by (simp add: noteWith_def exampleJob_def pendingBlock_def Gemini_def js_def NL_def hourglass_def)
  have keep: "indexOf (placeholderBlock ?jb) ([] @ js ''one'' @ js '' '' @ placeholderBlock ?jb @ [])
              = Some (length ([] :: jsstring) + length (js ''one'') + length (js '' ''))"
    by (simp add: exampleJob_def pendingBlock_def Gemini_def js_def NL_def hourglass_def)
  from splices_commute [OF d f1 f2 keep, of "js ''two''"] f1 f2 la
  show ?thesis
    by (simp add: noteWith_def) (simp add: js_def)
qed

section \<open>The order of the turns of step 1\<close>

lemma placed_suffix: "placed i (ls @ m # rs) d \<Longrightarrow> placed (index m) (m # rs) d"
  by (induction ls arbitrary: i) auto

lemma placed_right: "placed i ms d \<Longrightarrow> list_all (\<lambda>r. i \<le> index r) ms"
proof (induction ms arbitrary: i)
  case Nil
  show ?case by simp
next
  case (Cons m ms)
  then have "list_all (\<lambda>r. index m + length (whole m) \<le> index r) ms" by simp
  then have "list_all (\<lambda>r. i \<le> index r) ms"
    using Cons.prems by (auto simp: list_all_iff)
  with Cons.prems show ?case by simp
qed

lemma matchAllFrom_whole:
  "list_all (\<lambda>m. whole m = js ''![['' @ group1 m @ js '']]'') (matchAllFrom i s)"
proof (induction i s rule: matchAllFrom.induct)
  case (1 i s)
  show ?case
  proof (cases "execAt s")
    case None
    show ?thesis
    proof (cases s)
      case Nil
      then show ?thesis by (simp add: matchAllFrom_Nil)
    next
      case (Cons c cs)
      with None "1.IH"(1) [OF None Cons] show ?thesis by (simp add: matchAllFrom_None)
    qed
  next
    case (Some g)
    obtain g1 g2 where g: "g = (g1, g2)" by (cases g)
    define w where "w = js ''![['' @ g1 @ js '']]''"
    have lw: "length w = length g1 + 5" by (simp add: w_def js_def)
    then have wl: "length w \<noteq> 0" by simp
    have "list_all (\<lambda>m. whole m = js ''![['' @ group1 m @ js '']]'')
            (matchAllFrom (i + length w) (drop (length w) s))"
      by (rule "1.IH"(3) [OF Some g [symmetric] w_def wl])
    then show ?thesis
      using matchAllFrom_Some [of s g1 g2 i] Some g by (simp add: lw)
  qed
qed

lemma matchAll_whole:
  "m \<in> set (matchAll d) \<Longrightarrow> whole m = js ''![['' @ group1 m @ js '']]''"
  using matchAllFrom_whole [of 0 d] by (simp add: matchAll_def list_all_iff)

lemma turn_of_match:
  assumes step: "\<And>w jobs m d. index m + length (whole m) \<le> length (doc w) \<Longrightarrow>
      take (index m + length (whole m)) (doc w) = take (index m + length (whole m)) d \<Longrightarrow>
      f (w, jobs) m = (stepWorld pending e af d w m, jobs @ jobsFor pending e af d m)"
    and ms: "matchAll (doc w) = ls @ m # rs"
  shows "foldl f (w, []) (rev (matchAll (doc w)))
           = foldl f (foldl f (w, []) (rev (m # rs))) (rev ls)"
    and "edits (fst (foldl f (w, []) (rev (m # rs))))
           = edits w @ concat (map (editsFor pending e af (doc w)) (rev rs))
             @ editsFor pending e af (doc w) m"
    and "take (index m) (doc (fst (foldl f (w, []) (rev (m # rs))))) = take (index m) (doc w)"
    and "take (length (blockFor pending e af m))
           (drop (index m) (doc (fst (foldl f (w, []) (rev (m # rs))))))
           = blockFor pending e af m"
    and "list_all (\<lambda>r. index m < index r) rs"
proof -
  have pl: "placed (index m) (m # rs) (doc w)"
    using placed_matchAll [of "doc w"] unfolding ms by (rule placed_suffix)
  have st: "foldl f (w, []) (rev (m # rs)) = afterStep1 pending e af (index m) (m # rs) (w, [])"
    using step pl by (rule loop_closed)
  show "foldl f (w, []) (rev (matchAll (doc w)))
           = foldl f (foldl f (w, []) (rev (m # rs))) (rev ls)"
    unfolding ms by simp
  show "edits (fst (foldl f (w, []) (rev (m # rs))))
           = edits w @ concat (map (editsFor pending e af (doc w)) (rev rs))
             @ editsFor pending e af (doc w) m"
    unfolding st afterStep1_parts by simp
  have le: "index m \<le> length (doc w)" using pl by simp
  have d: "doc (fst (foldl f (w, []) (rev (m # rs))))
      = take (index m) (doc w) @ blockFor pending e af m
        @ substitute (blockFor pending e af) (index m + length (whole m)) rs
            (drop (length (whole m)) (drop (index m) (doc w)))"
    unfolding st afterStep1_parts by simp
  show "take (index m) (doc (fst (foldl f (w, []) (rev (m # rs))))) = take (index m) (doc w)"
    unfolding d using le by simp
  show "take (length (blockFor pending e af m))
           (drop (index m) (doc (fst (foldl f (w, []) (rev (m # rs))))))
           = blockFor pending e af m"
    unfolding d using le by simp
  have "m \<in> set (matchAll (doc w))" unfolding ms by simp
  from matchAll_whole [OF this] have "0 < length (whole m)" by (simp add: js_def)
  moreover have "list_all (\<lambda>r. index m + length (whole m) \<le> index r) rs"
  proof (rule placed_right)
    from pl show "placed (index m + length (whole m)) rs (doc w)" by simp
  qed
  ultimately show "list_all (\<lambda>r. index m < index r) rs"
    unfolding list_all_iff by (metis add_lessD1 less_add_same_cancel1 order_less_le_trans)
qed

lemma blockFor_resolved:
  "resolved e af m \<noteq> None \<Longrightarrow> blockFor pending e af m = pending (group1 m) (whole m)"
  by (auto simp: resolved_def blockFor_def split: option.splits)

text \<open>
  C2. Let \<open>m\<close> be a link of the note, \<open>rs\<close> the links to its right and \<open>ls\<close> the links to
  its left. The loop of step 1 takes the links of \<open>rs\<close> first, then \<open>m\<close>, then the
  links of \<open>ls\<close>: in the trace of edits every edit for a link to the right of \<open>m\<close>
  comes before the edits for \<open>m\<close>. Right after the turn of \<open>m\<close> the text before the
  offset of \<open>m\<close> is the text of the note, and the block of \<open>m\<close> (its placeholder when
  the link resolves) begins at the offset at which the link began, whatever the
  lengths of the blocks inserted before. This holds for both source files.
\<close>

theorem rightmost_first_keeps_offsets:
  assumes "matchAll (doc w) = ls @ m # rs"
  shows "list_all (\<lambda>r. index m < index r) rs
    \<and> collectJobs e p af (matchAll (doc w)) w
        = foldl (processMatch e p af) (foldl (processMatch e p af) (w, []) (rev (m # rs))) (rev ls)
    \<and> edits (fst (foldl (processMatch e p af) (w, []) (rev (m # rs))))
        = edits w @ concat (map (editsFor (pendingBlock p) e af (doc w)) (rev rs))
          @ editsFor (pendingBlock p) e af (doc w) m
    \<and> take (index m) (doc (fst (foldl (processMatch e p af) (w, []) (rev (m # rs)))))
        = take (index m) (doc w)
    \<and> take (length (blockFor (pendingBlock p) e af m))
          (drop (index m) (doc (fst (foldl (processMatch e p af) (w, []) (rev (m # rs))))))
        = blockFor (pendingBlock p) e af m
    \<and> (resolved e af m \<noteq> None \<longrightarrow>
          blockFor (pendingBlock p) e af m = pendingBlock p (group1 m) (whole m))
    \<and> collectJobs_main e af (matchAll (doc w)) w
        = foldl (processMatch_main e af) (foldl (processMatch_main e af) (w, []) (rev (m # rs))) (rev ls)
    \<and> edits (fst (foldl (processMatch_main e af) (w, []) (rev (m # rs))))
        = edits w @ concat (map (editsFor pendingBlock_main e af (doc w)) (rev rs))
          @ editsFor pendingBlock_main e af (doc w) m
    \<and> take (index m) (doc (fst (foldl (processMatch_main e af) (w, []) (rev (m # rs)))))
        = take (index m) (doc w)
    \<and> take (length (blockFor pendingBlock_main e af m))
          (drop (index m) (doc (fst (foldl (processMatch_main e af) (w, []) (rev (m # rs))))))
        = blockFor pendingBlock_main e af m
    \<and> (resolved e af m \<noteq> None \<longrightarrow>
          blockFor pendingBlock_main e af m = pendingBlock_main (group1 m) (whole m))"
proof -
  note a = turn_of_match [where f = "processMatch e p af" and pending = "pendingBlock p",
      OF processMatch_closed assms]
  note b = turn_of_match [where f = "processMatch_main e af" and pending = pendingBlock_main,
      OF processMatch_main_closed assms]
  show ?thesis
    using a b blockFor_resolved [of e af m "pendingBlock p"]
      blockFor_resolved [of e af m pendingBlock_main]
    unfolding collectJobs_def collectJobs_main_def by blast
qed

lemma matchAll_pair:
  "matchAll (js ''Hi ![[a.mp3]] ![[gone.mp3]]'') =
     [\<lparr>whole = js ''![[a.mp3]]'', group1 = js ''a.mp3'', group2 = js ''mp3'', index = 3\<rparr>,
      \<lparr>whole = js ''![[gone.mp3]]'', group1 = js ''gone.mp3'', group2 = js ''mp3'', index = 14\<rparr>]"
  by (simp add: matchAll_def matchAllFrom.simps execAt_def matchSuffix_def audioExtensions_def
      isLineTerminator_def js_def)

theorem rightmost_first_keeps_offsets_witness:
  "matchAll (js ''Hi ![[a.mp3]] ![[gone.mp3]]'') =
     [] @ \<lparr>whole = js ''![[a.mp3]]'', group1 = js ''a.mp3'', group2 = js ''mp3'', index = 3\<rparr>
        # [\<lparr>whole = js ''![[gone.mp3]]'', group1 = js ''gone.mp3'', group2 = js ''mp3'', index = 14\<rparr>]
   \<and> map inserted (edits (fst (collectJobs exampleEnv Gemini (Some (js ''note.md''))
          (matchAll (js ''Hi ![[a.mp3]] ![[gone.mp3]]''))
          (noteWith (js ''Hi ![[a.mp3]] ![[gone.mp3]]'')))))
       = [pendingBlock Gemini (js ''gone.mp3'') (js ''![[gone.mp3]]''),
          failedBlock (js ''Could not find file: gone.mp3'') (js ''![[gone.mp3]]''),
          pendingBlock Gemini (js ''a.mp3'') (js ''![[a.mp3]]'')]
   \<and> take 3 (doc (fst (collectJobs exampleEnv Gemini (Some (js ''note.md''))
          (matchAll (js ''Hi ![[a.mp3]] ![[gone.mp3]]''))
          (noteWith (js ''Hi ![[a.mp3]] ![[gone.mp3]]''))))) = js ''Hi ''
   \<and> take (length (pendingBlock Gemini (js ''a.mp3'') (js ''![[a.mp3]]'')))
        (drop 3 (doc (fst (collectJobs exampleEnv Gemini (Some (js ''note.md''))
          (matchAll (js ''Hi ![[a.mp3]] ![[gone.mp3]]''))
          (noteWith (js ''Hi ![[a.mp3]] ![[gone.mp3]]''))))))
       = pendingBlock Gemini (js ''a.mp3'') (js ''![[a.mp3]]'')"
proof -
  let ?D = "js ''Hi ![[a.mp3]] ![[gone.mp3]]''"
  let ?ma = "\<lparr>whole = js ''![[a.mp3]]'', group1 = js ''a.mp3'', group2 = js ''mp3'', index = 3\<rparr>"
  let ?mg = "\<lparr>whole = js ''![[gone.mp3]]'', group1 = js ''gone.mp3'', group2 = js ''mp3'', index = 14\<rparr>"
  let ?af = "Some (js ''note.md'')"
  have g: "getFirstLinkpathDest exampleEnv (js ''gone.mp3'') (js ''note.md'') = None"
    "getFirstLinkpathDest exampleEnv (js ''a.mp3'') (js ''note.md'') = Some (js ''a.mp3'')"
    by (simp_all add: exampleEnv_def js_def)
  have ms: "matchAll (doc (noteWith ?D)) = [] @ ?ma # [?mg]"
    by (simp add: example_facts(9) matchAll_pair)
  note t = rightmost_first_keeps_offsets [OF ms, where e = exampleEnv and p = Gemini and af = ?af]
  have c: "collectJobs exampleEnv Gemini ?af (matchAll ?D) (noteWith ?D)
      = foldl (processMatch exampleEnv Gemini ?af) (noteWith ?D, []) (rev (?ma # [?mg]))"
    using t by (simp add: example_facts(9))
  have ba: "blockFor (pendingBlock Gemini) exampleEnv ?af ?ma = pendingBlock Gemini (js ''a.mp3'') (js ''![[a.mp3]]'')"
    by (simp add: blockFor_def g)
  have e1: "map inserted (edits (fst (collectJobs exampleEnv Gemini ?af (matchAll ?D) (noteWith ?D))))
       = [pendingBlock Gemini (js ''gone.mp3'') (js ''![[gone.mp3]]''),
          failedBlock (js ''Could not find file: gone.mp3'') (js ''![[gone.mp3]]''),
          pendingBlock Gemini (js ''a.mp3'') (js ''![[a.mp3]]'')]"
    unfolding c using t
    by (simp add: editsFor_def blockFor_def resolved_def g Let_def) (simp add: noteWith_def js_def)
  have e2: "take 3 (doc (fst (collectJobs exampleEnv Gemini ?af (matchAll ?D) (noteWith ?D)))) = js ''Hi ''"
    unfolding c using t by (simp add: example_facts(9)) (simp add: js_def)
  have e3: "take (length (pendingBlock Gemini (js ''a.mp3'') (js ''![[a.mp3]]'')))
        (drop 3 (doc (fst (collectJobs exampleEnv Gemini ?af (matchAll ?D) (noteWith ?D)))))
       = pendingBlock Gemini (js ''a.mp3'') (js ''![[a.mp3]]'')"
    unfolding c using t by (simp add: ba)
  from e1 e2 e3 show ?thesis by (simp add: matchAll_pair)
qed

section \<open>Links that do not resolve\<close>






section \<open>Jobs, provider calls and splices\<close>

















section \<open>Missing API key\<close>

text \<open>
  C7. When the API key of the selected provider is the empty string, the command shows
  one notice and returns: the text of the note is unchanged, the editor is not
  edited, and no provider client is called. This holds for the command with two
  providers, for either provider, and for the command of \<open>src/main.ts\<close>.
\<close>

theorem missing_key_halts_before_work:
  "(selectedApiKey (settings plugin) = Some [] \<longrightarrow>
      transcribeAudioInNote e plugin schedule w
        = w\<lparr>notices := notices w @ [missingKeyNotice (provider (settings plugin))]\<rparr>)
   \<and> (geminiApiKey_main (settings_main plugin') = [] \<longrightarrow>
      transcribeAudioInNote_main e plugin' schedule w
        = w\<lparr>notices := notices w @ [missingKeyNotice Gemini]\<rparr>)"
  by (auto simp: transcribeAudioInNote_def transcribeAudioInNote_main_def selectedApiKey_def
        missingKeyNotice_def Notice_def Let_def provider_names split: if_splits)

theorem missing_key_halts_before_work_witness:
  "selectedApiKey DEFAULT_SETTINGS = Some []
   \<and> geminiApiKey_main \<lparr>geminiApiKey_main = [], transcriptionPrompt_main = [], modelName_main = []\<rparr> = []
   \<and> doc (transcribeAudioInNote exampleEnv
             \<lparr>settings = DEFAULT_SETTINGS, geminiService = [], openrouterService = []\<rparr> [0]
             (noteWith (js ''![[clip.mp3]]''))) = js ''![[clip.mp3]]''
   \<and> calls (transcribeAudioInNote exampleEnv
             \<lparr>settings = DEFAULT_SETTINGS, geminiService = [], openrouterService = []\<rparr> [0]
             (noteWith (js ''![[clip.mp3]]''))) = []
   \<and> edits (transcribeAudioInNote_main exampleEnv
             \<lparr>settings_main = \<lparr>geminiApiKey_main = [], transcriptionPrompt_main = [], modelName_main = []\<rparr>,
              geminiService_main = []\<rparr> [0]
             (noteWith (js ''![[clip.mp3]]''))) = []"
  using missing_key_halts_before_work
    [of "\<lparr>settings = DEFAULT_SETTINGS, geminiService = [], openrouterService = []\<rparr>"
        exampleEnv "[0]" "noteWith (js ''![[clip.mp3]]'')"
        "\<lparr>settings_main = \<lparr>geminiApiKey_main = [], transcriptionPrompt_main = [], modelName_main = []\<rparr>,
          geminiService_main = []\<rparr>"]
  by (simp add: selectedApiKey_def DEFAULT_SETTINGS_def noteWith_def)

section \<open>The provider after loading\<close>

lemma onChange_provider: "provider (settings (fst (onChange st c))) = provider (settings (fst st))"
  by (cases c) (simp_all add: onChange_def saveSettings_def Let_def)

lemma foldl_onChange_provider:
  "provider (settings (fst (foldl onChange st changes))) = provider (settings (fst st))"
  by (induction changes arbitrary: st) (simp_all add: onChange_provider)

lemma foldl_onChange_service:
  assumes "geminiService (fst st) = geminiApiKey (settings (fst st))"
  shows "geminiService (fst (foldl onChange st changes))
     = geminiApiKey (settings (fst (foldl onChange st changes)))"
  using assms
proof (induction changes arbitrary: st)
  case Nil
  then show ?case by simp
next
  case (Cons c changes)
  have "geminiService (fst (onChange st c)) = geminiApiKey (settings (fst (onChange st c)))"
    by (cases c) (simp_all add: onChange_def saveSettings_def Let_def)
  from Cons.IH [OF this] show ?case by simp
qed

lemma loadSettings_provider:
  "provider (loadSettings h) = orDefault Gemini (stored_provider (savedData h))"
  by (simp add: loadSettings_def Let_def DEFAULT_SETTINGS_def)

lemma onload_provider:
  "provider (settings (fst (onload h)))
     = (if provider (loadSettings h) = OpenRouter then Gemini else provider (loadSettings h))"
  by (simp add: onload_def saveSettings_def Let_def)

lemma onload_service:
  "geminiService (fst (onload h)) = geminiApiKey (settings (fst (onload h)))"
  by (simp add: onload_def saveSettings_def Let_def)

lemma processMatch_requestUrl: "processMatch (e\<lparr>requestUrl := r\<rparr>) = processMatch e"
  by (intro ext) (simp add: processMatch_def Let_def cong: option.case_cong)

lemma finishJob_requestUrl:
  assumes "provider (settings plugin) = Gemini"
  shows "finishJob (e\<lparr>requestUrl := r\<rparr>) plugin = finishJob e plugin"
  using assms
  by (intro ext)
     (simp add: finishJob_def transcribe_def GeminiService_transcribeAudio_def
        cong: option.case_cong sum.case_cong)

lemma command_requestUrl:
  assumes "provider (settings plugin) = Gemini"
  shows "transcribeAudioInNote (e\<lparr>requestUrl := r\<rparr>) plugin schedule w
     = transcribeAudioInNote e plugin schedule w"
  by (simp add: transcribeAudioInNote_def collectJobs_def runJobs_def processMatch_requestUrl
      finishJob_requestUrl [OF assms] Let_def cong: option.case_cong if_cong)

text \<open>
  C10 (as amended). Let the stored settings name no provider, \<open>gemini\<close> or
  \<open>openrouter\<close>, the values the setting is declared with. Then after \<open>onload\<close> the
  provider of the settings is Gemini, and so is the provider read back from what the
  host has stored. If the stored settings named OpenRouter, \<open>onload\<close> stores the
  settings with the provider Gemini, and it does so before it registers the command.
  No change made through the settings tab alters the provider. Every provider call
  of a later run of the command is the call of the Gemini client, built with the
  Gemini key of the settings, on the prompt and the model name of the settings; what
  the HTTP endpoint of OpenRouter would answer has no effect on the run; and every
  call the run traces is a call of the Gemini client.
\<close>

theorem provider_is_gemini_after_load:
  assumes "declaredProvider (stored_provider (savedData h))"
  shows "provider (settings (fst (onload h))) = Gemini
   \<and> provider (loadSettings (snd (onload h))) = Gemini
   \<and> (stored_provider (savedData h) = Some OpenRouter \<longrightarrow>
        stored_provider (savedData (snd (onload h))) = Some Gemini
        \<and> hostCalls (snd (onload h))
            = hostCalls h @ [SaveData, AddCommand (js ''transcribe-audio-in-note''), AddSettingTab])
   \<and> provider (settings (fst (foldl onChange (onload h) changes))) = Gemini
   \<and> transcribe e (fst (foldl onChange (onload h) changes)) path
       = GeminiService_transcribeAudio e
           (geminiApiKey (settings (fst (foldl onChange (onload h) changes)))) path
           (transcriptionPrompt (settings (fst (foldl onChange (onload h) changes))))
           (geminiModelName (settings (fst (foldl onChange (onload h) changes))))
   \<and> transcribeAudioInNote (e\<lparr>requestUrl := r\<rparr>) (fst (foldl onChange (onload h) changes)) schedule w
       = transcribeAudioInNote e (fst (foldl onChange (onload h) changes)) schedule w
   \<and> (\<exists>paths. calls (transcribeAudioInNote e (fst (foldl onChange (onload h) changes)) schedule w)
          = calls w @ map (Pair Gemini) paths)"
proof -
  define P where "P = fst (foldl onChange (onload h) changes)"
  from assms have l: "provider (loadSettings h) = Gemini \<or> provider (loadSettings h) = OpenRouter"
    by (auto simp: declaredProvider_def loadSettings_provider orDefault_def)
  then have a: "provider (settings (fst (onload h))) = Gemini"
    by (auto simp: onload_provider)
  have b: "provider (loadSettings (snd (onload h))) = Gemini"
    using l
    by (auto simp: onload_def saveSettings_def saveData_def Let_def loadSettings_provider orDefault_def)
  have c: "stored_provider (savedData h) = Some OpenRouter \<longrightarrow>
        stored_provider (savedData (snd (onload h))) = Some Gemini
        \<and> hostCalls (snd (onload h))
            = hostCalls h @ [SaveData, AddCommand (js ''transcribe-audio-in-note''), AddSettingTab]"
    by (simp add: onload_def loadSettings_def saveSettings_def saveData_def Let_def orDefault_def)
  have d: "provider (settings P) = Gemini"
    by (simp add: P_def foldl_onChange_provider a)
  have s: "geminiService P = geminiApiKey (settings P)"
    unfolding P_def by (rule foldl_onChange_service) (rule onload_service)
  have t: "transcribe e P path
       = GeminiService_transcribeAudio e (geminiApiKey (settings P)) path
           (transcriptionPrompt (settings P)) (geminiModelName (settings P))"
    by (simp add: transcribe_def d s)
  have u: "transcribeAudioInNote (e\<lparr>requestUrl := r\<rparr>) P schedule w
       = transcribeAudioInNote e P schedule w"
    using d by (rule command_requestUrl)
  from command_calls_any [of e P schedule w]
  have v: "\<exists>paths. calls (transcribeAudioInNote e P schedule w) = calls w @ map (Pair Gemini) paths"
    by (simp add: d clientFor_declared)
  from a b c d t u v show ?thesis unfolding P_def by blast
qed

theorem provider_is_gemini_after_load_witness:
  "declaredProvider (stored_provider (savedData migratedHost))
   \<and> stored_provider (savedData migratedHost) = Some OpenRouter
   \<and> provider (settings (fst (onload migratedHost))) = Gemini
   \<and> stored_provider (savedData (snd (onload migratedHost))) = Some Gemini
   \<and> hostCalls (snd (onload migratedHost))
       = [SaveData, AddCommand (js ''transcribe-audio-in-note''), AddSettingTab]
   \<and> geminiService (fst (onload migratedHost)) = js ''key''
   \<and> transcribe openrouterEnv (fst (onload migratedHost)) (js ''/vault/clip.mp3'')
       = GeminiService_transcribeAudio openrouterEnv (js ''key'') (js ''/vault/clip.mp3'')
           (transcriptionPrompt DEFAULT_SETTINGS) (js ''gemini-1.5-flash'')
   \<and> transcribe openrouterEnv (fst (onload migratedHost)) (js ''/vault/clip.mp3'')
       = Inr (js ''hello world'')"
  using provider_is_gemini_after_load
    [where h = migratedHost and changes = "[]" and e = openrouterEnv
       and path = "js ''/vault/clip.mp3''" and r = "requestUrl failingEnv"
       and schedule = "[]" and w = "noteWith []"]
  by (simp add: migratedHost_def declaredProvider_def)
     (simp add: onload_def loadSettings_def saveSettings_def saveData_def Let_def orDefault_def
        DEFAULT_SETTINGS_def GeminiService_transcribeAudio_def getMimeType_def lastSegment_def
        toLowerCase_def openrouterEnv_def exampleEnv_def js_def)

text \<open>
  C10 as stated fails when the stored settings name a provider that is neither
  \<open>gemini\<close> nor \<open>openrouter\<close>: \<open>Object.assign\<close> copies the name, \<open>onload\<close> keeps it
  and saves nothing, the command checks no key, and the job calls the OpenRouter
  client, whose answer reaches the note.
\<close>

theorem stored_provider_of_another_name_counterexample:
  "provider (settings (fst (onload strangeHost))) = js ''whisper''
   \<and> provider (settings (fst (onload strangeHost))) \<noteq> Gemini
   \<and> provider (loadSettings (snd (onload strangeHost))) \<noteq> Gemini
   \<and> hostCalls (snd (onload strangeHost))
       = [AddCommand (js ''transcribe-audio-in-note''), AddSettingTab]
   \<and> transcribe openrouterEnv (fst (onload strangeHost)) (js ''/vault/clip.mp3'')
       = Inr (js ''from openrouter'')
   \<and> GeminiService_transcribeAudio openrouterEnv (geminiService (fst (onload strangeHost)))
        (js ''/vault/clip.mp3'') (transcriptionPrompt (settings (fst (onload strangeHost))))
        (geminiModelName (settings (fst (onload strangeHost))))
       = Inr (js ''hello world'')
   \<and> doc (transcribeAudioInNote openrouterEnv (fst (onload strangeHost)) [0] (noteWith clipNote))
       = js ''Intro'' @ NL # js ''> [!tip] Audio Note'' @ NL # js ''> from openrouter'' @ NL
         # js ''> ![[clip.mp3]]'' @ NL # NL # js ''Outro''
   \<and> calls (transcribeAudioInNote openrouterEnv (fst (onload strangeHost)) [0] (noteWith clipNote))
       = [(OpenRouter, js ''/vault/clip.mp3'')]"
proof -
  define P where "P = fst (onload strangeHost)"
  have p: "provider (settings P) = js ''whisper''"
    by (simp add: P_def onload_provider loadSettings_provider strangeHost_def orDefault_def
        OpenRouter_def js_def)
  have n: "js ''whisper'' \<noteq> Gemini" "js ''whisper'' \<noteq> OpenRouter"
    by (simp_all add: Gemini_def OpenRouter_def js_def)
  have l: "provider (loadSettings (snd (onload strangeHost))) = js ''whisper''"
    by (simp add: onload_def loadSettings_provider strangeHost_def orDefault_def Let_def n)
  have h: "hostCalls (snd (onload strangeHost))
       = [AddCommand (js ''transcribe-audio-in-note''), AddSettingTab]"
    by (simp add: onload_def loadSettings_provider strangeHost_def orDefault_def Let_def n)
  have k: "openrouterService P = js ''or-key''" "geminiService P = js ''key''"
      "openrouterModelName (settings P) = js ''openai/whisper-large-v3''"
      "geminiModelName (settings P) = js ''gemini-1.5-flash''"
    by (simp_all add: P_def onload_def loadSettings_provider orDefault_def Let_def n)
       (simp_all add: strangeHost_def loadSettings_def DEFAULT_SETTINGS_def orDefault_def n)
  have m: "js ''gemini-1.5-flash'' \<noteq> []" "js ''or-key'' \<noteq> []" "js ''key'' \<noteq> []"
    by (simp_all add: js_def)
  have e: "readFileSync openrouterEnv = (\<lambda>path. Inr [])"
      "requestUrl openrouterEnv = (\<lambda>apiKey name modelName audio. HttpResponse 200 (js ''from openrouter'') None)"
      "generateContent openrouterEnv = (\<lambda>apiKey modelName prompt audio mime. Inr (js ''hello world''))"
      "activeView openrouterEnv = Some (Some (js ''note.md''))"
      "getFirstLinkpathDest openrouterEnv (js ''clip.mp3'') (js ''note.md'') = Some (js ''clip.mp3'')"
      "getFullPath openrouterEnv (js ''clip.mp3'') = js ''/vault/clip.mp3''"
    by (simp_all add: openrouterEnv_def exampleEnv_def m) (simp_all add: js_def)
  have mime: "getMimeType (js ''/vault/clip.mp3'') = Some (js ''audio/mp3'')"
    by (simp add: getMimeType_def lastSegment_def toLowerCase_def js_def)
  have t: "transcribe openrouterEnv P (js ''/vault/clip.mp3'') = Inr (js ''from openrouter'')"
    by (simp add: transcribe_def p n k OpenRouterService_transcribeAudio_def e m Let_def)
  have g: "GeminiService_transcribeAudio openrouterEnv (geminiService P) (js ''/vault/clip.mp3'')
        (transcriptionPrompt (settings P)) (geminiModelName (settings P)) = Inr (js ''hello world'')"
    by (simp add: GeminiService_transcribeAudio_def k m e mime)
  have key: "selectedApiKey (settings P) \<noteq> Some []"
    by (simp add: selectedApiKey_def p n)
  have r: "replaceNewlines (js ''from openrouter'') = js ''from openrouter''"
    by (simp add: replaceNewlines_def js_def NL_def)
  have d: "doc (transcribeAudioInNote openrouterEnv P [0] (noteWith clipNote))
       = js ''Intro'' @ NL # js ''> [!tip] Audio Note'' @ NL # js ''> from openrouter'' @ NL
         # js ''> ![[clip.mp3]]'' @ NL # NL # js ''Outro''"
    using single_link_run [OF key e(4) e(5), of "[0]" "noteWith clipNote"]
    by (simp add: noteWith_def e(6) t resultBlock_def finalBlock_def r) (simp add: js_def)
  have c: "calls (transcribeAudioInNote openrouterEnv P [0] (noteWith clipNote))
       = [(OpenRouter, js ''/vault/clip.mp3'')]"
    using command_calls [OF key e(4), of "[0]" "noteWith clipNote"]
    by (simp add: noteWith_def clipNote_def matchAll_clip jobsFor_def resolved_def e Let_def
        p clientFor_def n)
  from p n l h t g d c show ?thesis unfolding P_def by simp
qed

end
